theory Spec2Isabelle
  imports Complex_Main
begin

section \<open>JavaScript values used by the handlers\<close>

text \<open>
  A value of type \<open>string | undefined\<close> (or \<open>string | null\<close>) is a \<open>string option\<close>.
  The handlers test such values with \<^verbatim>\<open>if (v)\<close>: \<open>undefined\<close>, \<open>null\<close> and the empty
  string are falsy, every other string is truthy.
\<close>

fun truthy :: "string option \<Rightarrow> bool" where
  "truthy None = False"
| "truthy (Some v) = (v \<noteq> [])"

text \<open>
  A number that the validator \<^verbatim>\<open>z.number()\<close> accepts: a finite double, which is a
  rational (an integer or not), or one of the two infinities. \<open>NaN\<close> is refused by the
  validator and never reaches a procedure.
\<close>

datatype number = Num rat | PlusInfinity | MinusInfinity

section \<open>The bypass credential strategy\<close>

text \<open>
  \<^verbatim>\<open>authorize(credentials)\<close> of the \<open>CredentialsProvider\<close> in
  \<^verbatim>\<open>src/pages/api/auth/[...nextauth].ts\<close>. The environment variable
  \<open>TEST_MENUFIC_USER_LOGIN_KEY\<close> is read at the call; \<open>credentials\<close> may be
  \<open>undefined\<close>, and so may its field \<open>loginKey\<close>.
\<close>

record credentials =
  loginKey :: "string option"

record user =
  user_email :: string
  user_id :: string
  user_image :: string
  user_name :: string

definition testUser :: user where
  "testUser = \<lparr>user_email = ''testUser@gmail.com'', user_id = ''testUser'',
               user_image = '''', user_name = ''Test User''\<rparr>"

text \<open>\<^verbatim>\<open>credentials?.loginKey\<close>: \<open>undefined\<close> when \<open>credentials\<close> is.\<close>

definition optional_loginKey :: "credentials option \<Rightarrow> string option" where
  "optional_loginKey credentials =
     (case credentials of None \<Rightarrow> None | Some c \<Rightarrow> loginKey c)"

definition authorize :: "string option \<Rightarrow> credentials option \<Rightarrow> user option" where
  "authorize TEST_MENUFIC_USER_LOGIN_KEY credentials =
     (if truthy TEST_MENUFIC_USER_LOGIN_KEY \<and>
         optional_loginKey credentials = TEST_MENUFIC_USER_LOGIN_KEY
      then Some testUser
      else None)"

section \<open>The relational store\<close>

text \<open>
  The rows the category router reads and writes, with the columns it names. Positions are
  the integers the store keeps. \<open>cat_imageUrl\<close> and \<open>item_imageId\<close> are nullable columns.
\<close>

record category =
  cat_id :: string
  cat_menuId :: string
  cat_userId :: string
  cat_name :: string
  cat_position :: int
  cat_imageUrl :: "string option"

record menuItem =
  item_id :: string
  item_categoryId :: string
  item_imageId :: "string option"
  item_position :: int

record image =
  image_id :: string

text \<open>
  Modelled from the spec: the Menu table is declared in the schema, which is not among the
  sources; the spec gives every menu an owning user. No procedure of the category router
  reads this table.
\<close>

record menu =
  menu_id :: string
  menu_userId :: string

text \<open>
  The position column holds integers. The schema and the store are not among the sources:
  what the column holds after the write of a number that is not an integer of the signed
  32-bit range (a fraction, an infinity, a larger integer) is a parameter kept with the
  store, \<open>coerced_position\<close>.
\<close>

record store =
  categories :: "category list"
  menuItems :: "menuItem list"
  images :: "image list"
  menus :: "menu list"
  coerced_position :: "number \<Rightarrow> int"

text \<open>
  What the position column holds after the write of a number: an integer of the signed
  32-bit range as it is.
\<close>

definition stored_position :: "store \<Rightarrow> number \<Rightarrow> int" where
  "stored_position s x =
     (case x of
        Num q \<Rightarrow> if of_int \<lfloor>q\<rfloor> = q \<and> - (2 ^ 31) \<le> \<lfloor>q\<rfloor> \<and> \<lfloor>q\<rfloor> < 2 ^ 31
                 then \<lfloor>q\<rfloor> else coerced_position s x
      | PlusInfinity \<Rightarrow> coerced_position s x
      | MinusInfinity \<Rightarrow> coerced_position s x)"

datatype error =
    NotFound
  | UniqueConstraintViolation
  | ForeignKeyViolation
  | ExternalServiceError

type_synonym item_with_image = "menuItem \<times> image option"
type_synonym category_with_items = "category \<times> item_with_image list"

subsection \<open>Queries\<close>

text \<open>\<^verbatim>\<open>category.count({ where: { menuId } })\<close>\<close>

definition category_count :: "store \<Rightarrow> string \<Rightarrow> nat" where
  "category_count s m = length (filter (\<lambda>c. cat_menuId c = m) (categories s))"

text \<open>\<^verbatim>\<open>category.findFirst({ orderBy: { position: "desc" }, where: { menuId, userId } })\<close>\<close>

definition category_findFirst_desc :: "store \<Rightarrow> string \<Rightarrow> string \<Rightarrow> category option" where
  "category_findFirst_desc s m u =
     (case sort_key (\<lambda>c. - cat_position c)
             (filter (\<lambda>c. cat_menuId c = m \<and> cat_userId c = u) (categories s)) of
        [] \<Rightarrow> None
      | c # _ \<Rightarrow> Some c)"

text \<open>\<^verbatim>\<open>where: { id_userId: { id, userId } }\<close>: the row with this id and this owner.\<close>

definition id_userId :: "string \<Rightarrow> string \<Rightarrow> category \<Rightarrow> bool" where
  "id_userId i u c = (cat_id c = i \<and> cat_userId c = u)"

definition category_findUnique :: "store \<Rightarrow> string \<Rightarrow> string \<Rightarrow> category option" where
  "category_findUnique s i u = find (id_userId i u) (categories s)"

text \<open>\<^verbatim>\<open>include: { items: true }\<close> and \<^verbatim>\<open>include: { items: { include: { image: true } } }\<close>\<close>

definition items_of :: "store \<Rightarrow> category \<Rightarrow> menuItem list" where
  "items_of s c = filter (\<lambda>it. item_categoryId it = cat_id c) (menuItems s)"

definition image_of :: "store \<Rightarrow> menuItem \<Rightarrow> image option" where
  "image_of s it =
     (case item_imageId it of
        None \<Rightarrow> None
      | Some k \<Rightarrow> find (\<lambda>g. image_id g = k) (images s))"

definition include_items :: "store \<Rightarrow> category \<Rightarrow> category_with_items" where
  "include_items s c = (c, map (\<lambda>it. (it, image_of s it)) (items_of s c))"

text \<open>The same with \<^verbatim>\<open>orderBy: { position: "asc" }\<close> on the items.\<close>

definition include_items_asc :: "store \<Rightarrow> category \<Rightarrow> category_with_items" where
  "include_items_asc s c =
     (c, map (\<lambda>it. (it, image_of s it)) (sort_key item_position (items_of s c)))"

subsection \<open>Writes and transactions\<close>

text \<open>
  The writes the router queues in an array for \<^verbatim>\<open>$transaction\<close>. A \<open>delete\<close> or an
  \<open>update\<close> of one row fails when no row matches; a \<open>deleteMany\<close> never does.
\<close>

datatype tx_op =
    MenuItem_deleteMany string
  | Category_delete string string
  | Image_deleteMany "string list"
  | Category_update_position string string number

datatype tx_result =
    BatchPayload nat
  | CategoryRow category
  | CategoryWithItems category "item_with_image list"

fun run_op :: "tx_op \<Rightarrow> store \<Rightarrow> error + (tx_result \<times> store)" where
  "run_op (MenuItem_deleteMany cid) s =
     Inr (BatchPayload (length (filter (\<lambda>it. item_categoryId it = cid) (menuItems s))),
          s\<lparr>menuItems := filter (\<lambda>it. item_categoryId it \<noteq> cid) (menuItems s)\<rparr>)"
| "run_op (Category_delete i u) s =
     (case category_findUnique s i u of
        None \<Rightarrow> Inl NotFound
      | Some c \<Rightarrow>
          Inr (CategoryRow c,
               s\<lparr>categories := filter (\<lambda>c. \<not> id_userId i u c) (categories s)\<rparr>))"
| "run_op (Image_deleteMany ks) s =
     Inr (BatchPayload (length (filter (\<lambda>g. image_id g \<in> set ks) (images s))),
          s\<lparr>images := filter (\<lambda>g. image_id g \<notin> set ks) (images s)\<rparr>)"
| "run_op (Category_update_position i u p) s =
     (case category_findUnique s i u of
        None \<Rightarrow> Inl NotFound
      | Some c \<Rightarrow>
          (let v = stored_position s p;
               s' = s\<lparr>categories :=
                       map (\<lambda>c. if id_userId i u c then c\<lparr>cat_position := v\<rparr> else c)
                         (categories s)\<rparr>;
               (c', items) = include_items s' (c\<lparr>cat_position := v\<rparr>)
           in Inr (CategoryWithItems c' items, s')))"

fun run_ops :: "tx_op list \<Rightarrow> store \<Rightarrow> error + (tx_result list \<times> store)" where
  "run_ops [] s = Inr ([], s)"
| "run_ops (x # xs) s =
     (case run_op x s of
        Inl e \<Rightarrow> Inl e
      | Inr (r, s') \<Rightarrow>
          (case run_ops xs s' of
             Inl e \<Rightarrow> Inl e
           | Inr (rs, s'') \<Rightarrow> Inr (r # rs, s'')))"

text \<open>
  \<^verbatim>\<open>$transaction([...])\<close>: the writes run in order; when one fails the error is thrown
  and the store is the one before the transaction.
\<close>

definition transaction :: "tx_op list \<Rightarrow> store \<Rightarrow> (error + tx_result list) \<times> store" where
  "transaction xs s =
     (case run_ops xs s of
        Inl e \<Rightarrow> (Inl e, s)
      | Inr (rs, s') \<Rightarrow> (Inr rs, s'))"

section \<open>The image store and the rest of the environment\<close>

text \<open>
  The functions of \<^verbatim>\<open>src/server/imageUtil\<close> are collaborators: what each call returns,
  or whether it throws (\<open>None\<close>, \<open>True\<close>), is a parameter. \<open>generated_id\<close> is the id the
  store generates for the row that \<^verbatim>\<open>category.create\<close> inserts. The schema is not
  among the sources either: whether its relations reject a new Category row (its
  \<open>menuId\<close> and \<open>userId\<close> refer to other tables) is the parameter
  \<open>foreign_key_violated\<close>.
\<close>

record env =
  deleteFile_throws :: "string \<Rightarrow> bool"
  bulkDeleteFiles_throws :: "string list \<Rightarrow> bool"
  uploadImage_filePath :: "string \<Rightarrow> string \<Rightarrow> string option"
  encodeImageToBlurhash_value :: "string \<Rightarrow> string option"
  getColor_value :: "string \<Rightarrow> string option"
  generated_id :: string
  foreign_key_violated :: "store \<Rightarrow> category \<Rightarrow> bool"

datatype call =
    DeleteFile string
  | BulkDeleteFiles "string list"
  | UploadImage string string
  | EncodeImageToBlurhash string
  | GetColor string

text \<open>
  What a procedure leaves behind: the value it resolves to or the error it throws, the
  store, the image-store calls it issued in order, the lines it wrote with
  \<^verbatim>\<open>console.error\<close>, and the batches of writes it committed through
  \<^verbatim>\<open>$transaction\<close>, one list of writes for each transaction (a batch of reads, as at
  the start of \<open>create\<close>, and a single write outside \<^verbatim>\<open>$transaction\<close> are not listed).
\<close>

record 'a outcome =
  result :: "error + 'a"
  db :: store
  calls :: "call list"
  logged :: "string list"
  committed :: "tx_op list list"

section \<open>The category router\<close>

text \<open>
  Every procedure is a \<open>protectedProcedure\<close>: it runs with the id of the session's user,
  here the argument \<open>uid\<close>, on an input that the validators have accepted.
\<close>

definition thrown :: "error \<Rightarrow> store \<Rightarrow> call list \<Rightarrow> string list \<Rightarrow> 'a outcome" where
  "thrown e s cs ls = \<lparr>result = Inl e, db = s, calls = cs, logged = ls, committed = []\<rparr>"

definition returned :: "'a \<Rightarrow> store \<Rightarrow> call list \<Rightarrow> string list \<Rightarrow> 'a outcome" where
  "returned v s cs ls = \<lparr>result = Inr v, db = s, calls = cs, logged = ls, committed = []\<rparr>"

text \<open>The destination of an upload: \<^verbatim>\<open>`user/${ctx.session.user.id}/category`\<close>\<close>

definition category_folder :: "string \<Rightarrow> string" where
  "category_folder uid = ''user/'' @ uid @ ''/category''"

text \<open>
  \<^verbatim>\<open>try { await imageKit.deleteFile(url) } catch (error) { console.error(msg, error) }\<close>:
  the call is issued; when it throws, the message is logged and nothing else happens.
\<close>

definition try_deleteFile :: "env \<Rightarrow> string \<Rightarrow> string \<Rightarrow> call list \<times> string list" where
  "try_deleteFile env url msg =
     ([DeleteFile url], if deleteFile_throws env url then [msg] else [])"

text \<open>The guarded form, \<^verbatim>\<open>if (currentItem.imageUrl) { try ... }\<close>\<close>

definition delete_old_image :: "env \<Rightarrow> string option \<Rightarrow> string \<Rightarrow> call list \<times> string list" where
  "delete_old_image env imageUrl msg =
     (case imageUrl of
        None \<Rightarrow> ([], [])
      | Some url \<Rightarrow> if url = [] then ([], []) else try_deleteFile env url msg)"

subsection \<open>create\<close>

record create_input =
  ci_name :: string
  ci_imageBase64 :: "string option"
  ci_menuId :: string

record createData =
  cd_menuId :: string
  cd_name :: string
  cd_position :: int
  cd_userId :: string
  cd_imageUrl :: "string option"

text \<open>
  \<^verbatim>\<open>category.create({ data, include: { items: { include: { image: true } } } })\<close>: the new
  row gets the generated id; an id already in the table violates its uniqueness, and the
  relations of the schema may reject the row.
\<close>

definition category_create :: "env \<Rightarrow> store \<Rightarrow> createData \<Rightarrow> (error + category_with_items) \<times> store" where
  "category_create env s d =
     (let c = \<lparr>cat_id = generated_id env, cat_menuId = cd_menuId d, cat_userId = cd_userId d,
               cat_name = cd_name d, cat_position = cd_position d,
               cat_imageUrl = cd_imageUrl d\<rparr>
      in if cat_id c \<in> set (map cat_id (categories s)) then (Inl UniqueConstraintViolation, s)
         else if foreign_key_violated env s c then (Inl ForeignKeyViolation, s)
         else (let s' = s\<lparr>categories := categories s @ [c]\<rparr>
               in (Inr (include_items s' c), s')))"

definition create :: "env \<Rightarrow> string \<Rightarrow> create_input \<Rightarrow> store \<Rightarrow> category_with_items outcome" where
  "create env uid input s =
     (let count = category_count s (ci_menuId input);
          lastCategoryItem = category_findFirst_desc s (ci_menuId input) uid;
          createData = \<lparr>cd_menuId = ci_menuId input, cd_name = ci_name input,
                        cd_position = (case lastCategoryItem of
                                         Some l \<Rightarrow> cat_position l + 1
                                       | None \<Rightarrow> 0),
                        cd_userId = uid, cd_imageUrl = None\<rparr>;
          finish = (\<lambda>d cs. case category_create env s d of
                              (r, s') \<Rightarrow> \<lparr>result = r, db = s', calls = cs, logged = [],
                                          committed = []\<rparr>)
      in case ci_imageBase64 input of
           None \<Rightarrow> finish createData []
         | Some imageBase64 \<Rightarrow>
             if imageBase64 = [] then finish createData []
             else
               (let cs = [UploadImage imageBase64 (category_folder uid),
                          EncodeImageToBlurhash imageBase64, GetColor imageBase64]
                in case (uploadImage_filePath env imageBase64 (category_folder uid),
                         encodeImageToBlurhash_value env imageBase64,
                         getColor_value env imageBase64) of
                     (Some filePath, Some blurHash, Some color) \<Rightarrow>
                       finish (createData\<lparr>cd_imageUrl := Some filePath\<rparr>) cs
                   | _ \<Rightarrow> thrown ExternalServiceError s cs []))"

subsection \<open>delete\<close>

text \<open>The loop over \<open>currentItem.items\<close> that collects the truthy \<open>imageId\<close>s.\<close>

fun imagePaths_of :: "menuItem list \<Rightarrow> string list" where
  "imagePaths_of [] = []"
| "imagePaths_of (it # its) =
     (case item_imageId it of
        None \<Rightarrow> imagePaths_of its
      | Some k \<Rightarrow> if k = [] then imagePaths_of its else k # imagePaths_of its)"

text \<open>The array \<open>transactions\<close> as it stands when \<^verbatim>\<open>$transaction\<close> receives it.\<close>

definition delete_transactions :: "string \<Rightarrow> string \<Rightarrow> string list \<Rightarrow> tx_op list" where
  "delete_transactions i uid imagePaths =
     [MenuItem_deleteMany i, Category_delete i uid] @
     (if imagePaths \<noteq> [] then [Image_deleteMany imagePaths] else [])"

text \<open>
  The array \<open>promiseList\<close>: the image-store calls issued beside the transaction. The
  array itself is an element of the \<^verbatim>\<open>Promise.all\<close> argument, so the outcome of these
  calls is not awaited.
\<close>

definition delete_promiseList :: "string list \<Rightarrow> call list" where
  "delete_promiseList imagePaths =
     (if imagePaths \<noteq> [] then [BulkDeleteFiles imagePaths] else [])"

text \<open>
  The part of \<open>delete\<close> after the awaited lookup (lines 48 to 80). \<open>currentItem\<close> is what
  the lookup returned; the store is the one the transaction meets, which other requests
  may have changed since the lookup.
\<close>

definition delete_writes :: "env \<Rightarrow> string \<Rightarrow> string \<Rightarrow> category \<times> menuItem list \<Rightarrow> store \<Rightarrow> (category \<times> menuItem list) outcome" where
  "delete_writes env uid i currentItem s =
     (let imagePaths = imagePaths_of (snd currentItem);
          (cs, ls) = delete_old_image env (cat_imageUrl (fst currentItem))
                       ''Failed to delete category image:'';
          transactions = delete_transactions i uid imagePaths;
          promiseList = delete_promiseList imagePaths
      in case transaction transactions s of
           (Inl e, s') \<Rightarrow> thrown e s' (cs @ promiseList) ls
         | (Inr _, s') \<Rightarrow>
             (returned currentItem s' (cs @ promiseList) ls)\<lparr>committed := [transactions]\<rparr>)"

text \<open>The whole procedure, with no other request between the lookup and the transaction.\<close>

definition delete :: "env \<Rightarrow> string \<Rightarrow> string \<Rightarrow> store \<Rightarrow> (category \<times> menuItem list) outcome" where
  "delete env uid i s =
     (case category_findUnique s i uid of
        None \<Rightarrow> thrown NotFound s [] []
      | Some c \<Rightarrow> delete_writes env uid i (c, items_of s c) s)"

subsection \<open>getAll\<close>

definition getAll :: "string \<Rightarrow> string \<Rightarrow> store \<Rightarrow> category_with_items list outcome" where
  "getAll uid m s =
     returned
       (map (include_items_asc s)
          (sort_key cat_position
             (filter (\<lambda>c. cat_menuId c = m \<and> cat_userId c = uid) (categories s))))
       s [] []"

subsection \<open>update\<close>

record update_input =
  ui_name :: string
  ui_imageBase64 :: "string option"
  ui_id :: string

record updateData =
  ud_name :: string
  ud_imageUrl :: "string option"

text \<open>A field of \<open>data\<close> that is \<open>undefined\<close> leaves its column as it is.\<close>

definition apply_updateData :: "updateData \<Rightarrow> category \<Rightarrow> category" where
  "apply_updateData d c =
     c\<lparr>cat_name := ud_name d,
       cat_imageUrl := (case ud_imageUrl d of None \<Rightarrow> cat_imageUrl c | Some p \<Rightarrow> Some p)\<rparr>"

text \<open>\<^verbatim>\<open>category.update({ data, where: { id_userId } })\<close>\<close>

definition category_update :: "store \<Rightarrow> string \<Rightarrow> string \<Rightarrow> updateData \<Rightarrow> (error + category) \<times> store" where
  "category_update s i u d =
     (case category_findUnique s i u of
        None \<Rightarrow> (Inl NotFound, s)
      | Some c \<Rightarrow>
          (Inr (apply_updateData d c),
           s\<lparr>categories :=
                map (\<lambda>c. if id_userId i u c then apply_updateData d c else c) (categories s)\<rparr>))"

definition update :: "env \<Rightarrow> string \<Rightarrow> update_input \<Rightarrow> store \<Rightarrow> category outcome" where
  "update env uid input s =
     (case category_findUnique s (ui_id input) uid of
        None \<Rightarrow> thrown NotFound s [] []
      | Some currentItem \<Rightarrow>
          (let updateData = \<lparr>ud_name = ui_name input, ud_imageUrl = None\<rparr>;
               finish = (\<lambda>d cs ls. case category_update s (ui_id input) uid d of
                                      (r, s') \<Rightarrow> \<lparr>result = r, db = s', calls = cs, logged = ls,
                                                  committed = []\<rparr>)
           in case ui_imageBase64 input of
                None \<Rightarrow> finish updateData [] []
              | Some imageBase64 \<Rightarrow>
                  if imageBase64 = [] then finish updateData [] []
                  else
                    (let (cs, ls) = delete_old_image env (cat_imageUrl currentItem)
                                      ''Failed to delete old category image:'';
                         cs' = cs @ [UploadImage imageBase64 (category_folder uid)]
                     in case uploadImage_filePath env imageBase64 (category_folder uid) of
                          None \<Rightarrow> thrown ExternalServiceError s cs' ls
                        | Some filePath \<Rightarrow>
                            finish (updateData\<lparr>ud_imageUrl := Some filePath\<rparr>) cs' ls)))"

subsection \<open>updatePosition\<close>

record position_input =
  pi_id :: string
  pi_newPosition :: number

text \<open>The array \<^verbatim>\<open>input.map((item) => ctx.prisma.category.update({...}))\<close>\<close>

definition position_ops :: "string \<Rightarrow> position_input list \<Rightarrow> tx_op list" where
  "position_ops uid input =
     map (\<lambda>item. Category_update_position (pi_id item) uid (pi_newPosition item)) input"

definition updatePosition :: "string \<Rightarrow> position_input list \<Rightarrow> store \<Rightarrow> tx_result list outcome" where
  "updatePosition uid input s =
     (case transaction (position_ops uid input) s of
        (Inl e, s') \<Rightarrow> thrown e s' [] []
      | (Inr rs, s') \<Rightarrow> (returned rs s' [] [])\<lparr>committed := [position_ops uid input]\<rparr>)"

section \<open>Notions the properties are stated with\<close>

text \<open>
  What a list of reassignments makes of one row, read off the specification: every
  reassignment that names the row (by its id, for the caller) sets its position, in the
  order of the list, and no other column changes. \<open>column\<close> gives what the position
  column holds after a number has been written to it.
\<close>

definition reposition :: "(number \<Rightarrow> int) \<Rightarrow> string \<Rightarrow> position_input list \<Rightarrow> category \<Rightarrow> category" where
  "reposition column uid input c =
     foldl (\<lambda>c item. if id_userId (pi_id item) uid c
                       then c\<lparr>cat_position := column (pi_newPosition item)\<rparr> else c)
       c input"

text \<open>The ids of the categories a listing returns, in its order.\<close>

definition listed_ids :: "category_with_items list \<Rightarrow> string list" where
  "listed_ids rows = map (\<lambda>r. cat_id (fst r)) rows"

text \<open>\<open>x\<close> stands in the list before the first \<open>y\<close>, and \<open>y\<close> is in the list.\<close>

definition occurs_before :: "'a \<Rightarrow> 'a \<Rightarrow> 'a list \<Rightarrow> bool" where
  "occurs_before x y xs = (x \<in> set (takeWhile (\<lambda>z. z \<noteq> y) xs) \<and> y \<in> set xs)"

text \<open>The positions of the caller's categories in a menu, the rows \<open>create\<close> looks at.\<close>

definition own_positions :: "store \<Rightarrow> string \<Rightarrow> string \<Rightarrow> int list" where
  "own_positions s m uid =
     map cat_position (filter (\<lambda>c. cat_menuId c = m \<and> cat_userId c = uid) (categories s))"

text \<open>
  Calls of \<open>create\<close> by one caller, one after the other, each on the store the previous
  one left; the first error ends the run. The result lists the created rows in order.
\<close>

fun create_all :: "string \<Rightarrow> (env \<times> create_input) list \<Rightarrow> store \<Rightarrow> error + (category list \<times> store)" where
  "create_all uid [] s = Inr ([], s)"
| "create_all uid ((env, input) # rest) s =
     (case result (create env uid input s) of
        Inl e \<Rightarrow> Inl e
      | Inr (c, items) \<Rightarrow>
          (case create_all uid rest (db (create env uid input s)) of
             Inl e \<Rightarrow> Inl e
           | Inr (cs, s') \<Rightarrow> Inr (c # cs, s')))"

text \<open>The position the next category of the caller in the menu is to get.\<close>

definition next_position :: "store \<Rightarrow> string \<Rightarrow> string \<Rightarrow> int" where
  "next_position s m uid =
     (if own_positions s m uid = [] then 0 else Max (set (own_positions s m uid)) + 1)"

text \<open>The store after the three writes of \<open>delete\<close>.\<close>

definition deleted_from :: "store \<Rightarrow> string \<Rightarrow> string \<Rightarrow> string list \<Rightarrow> store" where
  "deleted_from s i uid imagePaths =
     s\<lparr>menuItems := filter (\<lambda>it. item_categoryId it \<noteq> i) (menuItems s),
       categories := filter (\<lambda>c. \<not> id_userId i uid c) (categories s),
       images := filter (\<lambda>g. image_id g \<notin> set imagePaths) (images s)\<rparr>"

section \<open>Concrete stores and environments\<close>

text \<open>A position column that drops the fraction of a number and holds 0 for an infinity.\<close>

definition drops_fraction :: "number \<Rightarrow> int" where
  "drops_fraction x = (case x of Num q \<Rightarrow> \<lfloor>q\<rfloor> | PlusInfinity \<Rightarrow> 0 | MinusInfinity \<Rightarrow> 0)"

definition two_categories :: store where
  "two_categories =
     \<lparr>categories =
        [\<lparr>cat_id = ''A'', cat_menuId = ''m1'', cat_userId = ''alice'', cat_name = ''Starters'',
          cat_position = 0, cat_imageUrl = None\<rparr>,
         \<lparr>cat_id = ''B'', cat_menuId = ''m1'', cat_userId = ''alice'', cat_name = ''Mains'',
          cat_position = 1, cat_imageUrl = None\<rparr>],
      menuItems = [], images = [],
      menus = [\<lparr>menu_id = ''m1'', menu_userId = ''alice''\<rparr>],
      coerced_position = drops_fraction\<rparr>"

text \<open>
  Two environments: in the first every image-store call succeeds, in the second every one
  throws. In both the schema accepts every new row.
\<close>

definition env_ok :: "string \<Rightarrow> env" where
  "env_ok gid =
     \<lparr>deleteFile_throws = (\<lambda>url. False), bulkDeleteFiles_throws = (\<lambda>paths. False),
      uploadImage_filePath = (\<lambda>imageBase64 folder. Some (folder @ ''/upload'')),
      encodeImageToBlurhash_value = (\<lambda>imageBase64. Some ''hash''),
      getColor_value = (\<lambda>imageBase64. Some ''color''),
      generated_id = gid,
      foreign_key_violated = (\<lambda>s c. False)\<rparr>"

definition env_down :: "string \<Rightarrow> env" where
  "env_down gid =
     \<lparr>deleteFile_throws = (\<lambda>url. True), bulkDeleteFiles_throws = (\<lambda>paths. True),
      uploadImage_filePath = (\<lambda>imageBase64 folder. None),
      encodeImageToBlurhash_value = (\<lambda>imageBase64. None),
      getColor_value = (\<lambda>imageBase64. None),
      generated_id = gid,
      foreign_key_violated = (\<lambda>s c. False)\<rparr>"

definition only_menu :: store where
  "only_menu = \<lparr>categories = [], menuItems = [], images = [],
                 menus = [\<lparr>menu_id = ''m1'', menu_userId = ''bob''\<rparr>],
      coerced_position = drops_fraction\<rparr>"

definition bobs_menu :: store where
  "bobs_menu =
     \<lparr>categories =
        [\<lparr>cat_id = ''c1'', cat_menuId = ''m1'', cat_userId = ''bob'', cat_name = ''Starters'',
          cat_position = 0, cat_imageUrl = None\<rparr>],
      menuItems = [], images = [],
      menus = [\<lparr>menu_id = ''m1'', menu_userId = ''bob''\<rparr>],
      coerced_position = drops_fraction\<rparr>"

definition three_creates :: "(env \<times> create_input) list" where
  "three_creates =
     [(env_ok ''c1'', \<lparr>ci_name = ''Starters'', ci_imageBase64 = None, ci_menuId = ''m1''\<rparr>),
      (env_ok ''c2'', \<lparr>ci_name = ''Mains'', ci_imageBase64 = Some ''aGk='', ci_menuId = ''m1''\<rparr>),
      (env_ok ''c3'', \<lparr>ci_name = ''Desserts'', ci_imageBase64 = None, ci_menuId = ''m1''\<rparr>)]"

definition with_item_image :: store where
  "with_item_image =
     \<lparr>categories =
        [\<lparr>cat_id = ''c1'', cat_menuId = ''m1'', cat_userId = ''alice'', cat_name = ''Starters'',
          cat_position = 0, cat_imageUrl = Some ''user/alice/category/old''\<rparr>,
         \<lparr>cat_id = ''c2'', cat_menuId = ''m1'', cat_userId = ''alice'', cat_name = ''Mains'',
          cat_position = 1, cat_imageUrl = None\<rparr>],
      menuItems =
        [\<lparr>item_id = ''i1'', item_categoryId = ''c1'', item_imageId = Some ''img1'', item_position = 0\<rparr>,
         \<lparr>item_id = ''i2'', item_categoryId = ''c1'', item_imageId = None, item_position = 1\<rparr>,
         \<lparr>item_id = ''i3'', item_categoryId = ''c2'', item_imageId = Some ''img3'', item_position = 0\<rparr>],
      images = [\<lparr>image_id = ''img1''\<rparr>, \<lparr>image_id = ''img3''\<rparr>],
      menus = [\<lparr>menu_id = ''m1'', menu_userId = ''alice''\<rparr>],
      coerced_position = drops_fraction\<rparr>"

section \<open>Properties of the bypass strategy\<close>

text \<open>
  C9. \<open>authorize\<close> returns the fixed test identity (id "testUser", email
  "testUser@gmail.com", name "Test User") exactly when the bypass secret is set, that is a
  non-empty string as the guard \<^verbatim>\<open>process.env.TEST_MENUFIC_USER_LOGIN_KEY && ...\<close> reads
  it, and the supplied \<open>loginKey\<close> is that string. For every other input it returns
  \<open>null\<close>: when the secret is unconfigured (undefined or empty), when no credentials or
  no loginKey are supplied, and when the loginKey differs.
\<close>

theorem authorize_bypass:
  "(authorize secret creds = Some testUser \<longleftrightarrow>
      (\<exists>k c. k \<noteq> [] \<and> secret = Some k \<and> creds = Some c \<and> loginKey c = Some k)) \<and>
   (authorize secret creds \<noteq> Some testUser \<longleftrightarrow> authorize secret creds = None) \<and>
   user_id testUser = ''testUser'' \<and>
   user_email testUser = ''testUser@gmail.com'' \<and>
   user_name testUser = ''Test User'' \<and>
   authorize None creds = None \<and>
   authorize (Some []) creds = None"
  by (cases secret; cases creds)
     (auto simp: authorize_def optional_loginKey_def testUser_def)

section \<open>Lookups and transactions of position updates\<close>

lemma findUnique_None_iff:
  "category_findUnique s i u = None \<longleftrightarrow> (\<forall>c\<in>set (categories s). cat_id c = i \<longrightarrow> cat_userId c \<noteq> u)"
  by (auto simp: category_findUnique_def find_None_iff id_userId_def)

lemma findUnique_Some:
  "category_findUnique s i u = Some c \<Longrightarrow> c \<in> set (categories s) \<and> cat_id c = i \<and> cat_userId c = u"
  by (auto simp: category_findUnique_def find_Some_iff id_userId_def)

lemma find_map_None:
  "(\<And>x. P (g x) = P x) \<Longrightarrow> (find P (map g xs) = None) = (find P xs = None)"
  by (induction xs) auto

lemma findUnique_map_position:
  "category_findUnique (s\<lparr>categories := map (\<lambda>c. if Q c then c\<lparr>cat_position := p\<rparr> else c) (categories s)\<rparr>) i u = None
   \<longleftrightarrow> category_findUnique s i u = None"
  unfolding category_findUnique_def by (simp, rule find_map_None) (simp add: id_userId_def)

lemma stored_position_categories:
  "stored_position (s\<lparr>categories := cs\<rparr>) = stored_position s"
proof (rule ext)
  fix x show "stored_position (s\<lparr>categories := cs\<rparr>) x = stored_position s x"
    by (cases x) (auto simp: stored_position_def)
qed

lemma stored_position_integer:
  "- (2 ^ 31) \<le> n \<Longrightarrow> n < 2 ^ 31 \<Longrightarrow> stored_position s (Num (of_int n)) = n"
  by (simp add: stored_position_def)

lemma run_op_position_Inr:
  assumes "run_op (Category_update_position i u p) s = Inr (r, s')"
  shows "category_findUnique s i u \<noteq> None"
    and "s' = s\<lparr>categories := map (\<lambda>c. if id_userId i u c
                                         then c\<lparr>cat_position := stored_position s p\<rparr> else c)
                                 (categories s)\<rparr>"
  using assms by (auto simp: Let_def include_items_def split: option.splits)

lemma run_op_position_findUnique:
  assumes "run_op (Category_update_position i u p) s = Inr (r, s')"
  shows "category_findUnique s' j v = None \<longleftrightarrow> category_findUnique s j v = None"
  using run_op_position_Inr(2)[OF assms] by (simp add: findUnique_map_position)

lemma run_ops_position_missing:
  "\<exists>item\<in>set input. category_findUnique s (pi_id item) uid = None \<Longrightarrow>
   run_ops (position_ops uid input) s = Inl NotFound"
proof (induction input arbitrary: s)
  case Nil
  then show ?case by simp
next
  case (Cons item input)
  show ?case
  proof (cases "run_op (Category_update_position (pi_id item) uid (pi_newPosition item)) s")
    case (Inl e)
    then have "e = NotFound" by (auto split: option.splits simp: Let_def include_items_def)
    with Inl show ?thesis by (simp add: position_ops_def)
  next
    case (Inr rs)
    obtain r s' where rs: "rs = (r, s')" by (cases rs)
    from Inr rs have found: "category_findUnique s (pi_id item) uid \<noteq> None"
      using run_op_position_Inr(1) by blast
    with Cons.prems obtain other where "other \<in> set input"
      "category_findUnique s (pi_id other) uid = None" by auto
    then have "\<exists>x\<in>set input. category_findUnique s' (pi_id x) uid = None"
      using run_op_position_findUnique[of _ _ _ s r s'] Inr rs by blast
    then have "run_ops (position_ops uid input) s' = Inl NotFound" by (rule Cons.IH)
    with Inr rs show ?thesis by (simp add: position_ops_def)
  qed
qed

lemma run_ops_position_present:
  "\<forall>item\<in>set input. category_findUnique s (pi_id item) uid \<noteq> None \<Longrightarrow>
   \<exists>rs. length rs = length input \<and>
     run_ops (position_ops uid input) s =
       Inr (rs, s\<lparr>categories := map (reposition (stored_position s) uid input) (categories s)\<rparr>)"
proof (induction input arbitrary: s)
  case Nil
  then show ?case by (simp add: position_ops_def reposition_def)
next
  case (Cons item input)
  let ?i = "pi_id item" and ?v = "stored_position s (pi_newPosition item)"
  let ?s' = "s\<lparr>categories := map (\<lambda>c. if id_userId ?i uid c then c\<lparr>cat_position := ?v\<rparr> else c) (categories s)\<rparr>"
  from Cons.prems obtain c where c: "category_findUnique s ?i uid = Some c" by auto
  then obtain r where r: "run_op (Category_update_position ?i uid (pi_newPosition item)) s = Inr (r, ?s')"
    by (simp add: Let_def include_items_def)
  have col: "stored_position ?s' = stored_position s" by (rule stored_position_categories)
  have "\<forall>x\<in>set input. category_findUnique ?s' (pi_id x) uid \<noteq> None"
    using Cons.prems by (simp add: findUnique_map_position)
  from Cons.IH[OF this] obtain rs where rs: "length rs = length input"
    "run_ops (position_ops uid input) ?s' =
       Inr (rs, ?s'\<lparr>categories := map (reposition (stored_position s) uid input) (categories ?s')\<rparr>)"
    unfolding col by blast
  have "?s'\<lparr>categories := map (reposition (stored_position s) uid input) (categories ?s')\<rparr>
        = s\<lparr>categories := map (reposition (stored_position s) uid (item # input)) (categories s)\<rparr>"
    by (simp add: reposition_def)
  with r rs show ?case by (auto simp: position_ops_def)
qed

lemma sorted_takeWhile_mem:
  fixes f :: "'a \<Rightarrow> int"
  shows "sorted (map f xs) \<Longrightarrow> x \<in> set xs \<Longrightarrow> \<not> P x \<Longrightarrow> (\<forall>y\<in>set xs. P y \<longrightarrow> f x < f y) \<Longrightarrow>
         x \<in> set (takeWhile (\<lambda>y. \<not> P y) xs)"
proof (induction xs)
  case Nil
  then show ?case by simp
next
  case (Cons z zs)
  have "\<not> P z"
  proof
    assume "P z"
    with Cons.prems(4) have lt: "f x < f z" by simp
    from Cons.prems(2,3) \<open>P z\<close> have "x \<in> set zs" by auto
    with Cons.prems(1) have "f z \<le> f x" by auto
    with lt show False by simp
  qed
  with Cons show ?case by auto
qed

lemma updatePosition_missing:
  "\<exists>item\<in>set input. category_findUnique s (pi_id item) uid = None \<Longrightarrow>
   updatePosition uid input s = thrown NotFound s [] []"
  using run_ops_position_missing[of input s uid]
  by (simp add: updatePosition_def transaction_def)

lemma updatePosition_present:
  "\<forall>item\<in>set input. category_findUnique s (pi_id item) uid \<noteq> None \<Longrightarrow>
   \<exists>rs. length rs = length input \<and>
     updatePosition uid input s =
       (returned rs (s\<lparr>categories := map (reposition (stored_position s) uid input)
                                      (categories s)\<rparr>) [] [])
       \<lparr>committed := [position_ops uid input]\<rparr>"
  using run_ops_position_present[of input s uid]
  by (auto simp: updatePosition_def transaction_def)

lemma getAll_sorted:
  "\<exists>rows. getAll uid m s = returned rows s [] [] \<and> sorted (map (\<lambda>r. cat_position (fst r)) rows)"
  unfolding getAll_def
  by (rule exI[of _ "map (include_items_asc s) (sort_key cat_position
        (filter (\<lambda>c. cat_menuId c = m \<and> cat_userId c = uid) (categories s)))"])
     (simp add: include_items_asc_def comp_def)

lemma swap_example:
  assumes ab: "a \<noteq> b"
    and ca: "category_findUnique s a uid = Some ca" and cb: "category_findUnique s b uid = Some cb"
    and ma: "cat_menuId ca = m" and mb: "cat_menuId cb = m"
  shows "\<exists>rs s' rows.
           result (updatePosition uid [\<lparr>pi_id = a, pi_newPosition = Num 2\<rparr>,
                                       \<lparr>pi_id = b, pi_newPosition = Num 1\<rparr>] s) = Inr rs \<and>
           db (updatePosition uid [\<lparr>pi_id = a, pi_newPosition = Num 2\<rparr>,
                                   \<lparr>pi_id = b, pi_newPosition = Num 1\<rparr>] s) = s' \<and>
           getAll uid m s' = returned rows s' [] [] \<and>
           occurs_before b a (listed_ids rows)"
proof -
  let ?input = "[\<lparr>pi_id = a, pi_newPosition = Num 2\<rparr>, \<lparr>pi_id = b, pi_newPosition = Num 1\<rparr>]"
  let ?g = "reposition (stored_position s) uid ?input"
  let ?s' = "s\<lparr>categories := map ?g (categories s)\<rparr>"
  let ?sel = "\<lambda>c. cat_menuId c = m \<and> cat_userId c = uid"
  let ?cats = "sort_key cat_position (filter ?sel (categories ?s'))"
  let ?rows = "map (include_items_asc ?s') ?cats"
  have two: "stored_position s (Num 2) = 2" and one: "stored_position s (Num 1) = 1"
    using stored_position_integer[where s=s and n=2] stored_position_integer[where s=s and n=1]
    by simp_all
  have "\<forall>item\<in>set ?input. category_findUnique s (pi_id item) uid \<noteq> None"
    using ca cb by simp
  from updatePosition_present[OF this] obtain rs where
    up: "updatePosition uid ?input s = (returned rs ?s' [] [])\<lparr>committed := [position_ops uid ?input]\<rparr>"
    by blast
  then have up_r: "result (updatePosition uid ?input s) = Inr rs"
    and up_d: "db (updatePosition uid ?input s) = ?s'"
    by (simp_all add: returned_def)
  have ga: "getAll uid m ?s' = returned ?rows ?s' [] []" by (simp add: getAll_def)
  have ids: "listed_ids ?rows = map cat_id ?cats"
    by (simp add: listed_ids_def include_items_asc_def comp_def)
  have g_keeps: "cat_id (?g c) = cat_id c \<and> cat_menuId (?g c) = cat_menuId c \<and>
                 cat_userId (?g c) = cat_userId c" for c
    by (simp add: reposition_def)
  have g_a: "cat_position (?g c) = 2" if "cat_id c = a" "cat_userId c = uid" for c
    using that ab by (simp add: reposition_def id_userId_def two)
  have g_b: "cat_position (?g c) = 1" if "cat_id c = b" "cat_userId c = uid" for c
    using that by (simp add: reposition_def id_userId_def one)
  from findUnique_Some[OF ca] ma have a_in: "?g ca \<in> set ?cats" by (simp add: g_keeps)
  from findUnique_Some[OF cb] mb have b_in: "?g cb \<in> set ?cats" by (simp add: g_keeps)
  have pos_b: "cat_position (?g cb) = 1" using findUnique_Some[OF cb] g_b by blast
  have later: "\<forall>y\<in>set ?cats. cat_id y = a \<longrightarrow> cat_position (?g cb) < cat_position y"
  proof (intro ballI impI)
    fix y assume "y \<in> set ?cats" "cat_id y = a"
    then obtain c where "c \<in> set (categories s)" "y = ?g c" "cat_userId y = uid" by auto
    with \<open>cat_id y = a\<close> g_keeps[of c] have "cat_position y = 2" using g_a[of c] by simp
    with pos_b show "cat_position (?g cb) < cat_position y" by simp
  qed
  have "cat_id (?g cb) \<noteq> a" using findUnique_Some[OF cb] ab by (simp add: g_keeps)
  with sorted_takeWhile_mem[of cat_position ?cats "?g cb" "\<lambda>y. cat_id y = a"] b_in later
  have "?g cb \<in> set (takeWhile (\<lambda>y. cat_id y \<noteq> a) ?cats)" by simp
  then have "cat_id (?g cb) \<in> set (takeWhile (\<lambda>z. z \<noteq> a) (map cat_id ?cats))"
    by (simp add: takeWhile_map comp_def)
  moreover have "cat_id (?g cb) = b" using findUnique_Some[OF cb] by (simp add: g_keeps)
  moreover have "a \<in> set (map cat_id ?cats)" using a_in findUnique_Some[OF ca] g_keeps[of ca]
    by (simp add: image_iff) metis
  ultimately have "occurs_before b a (listed_ids ?rows)"
    unfolding occurs_before_def ids by simp
  with up_r up_d ga show ?thesis by blast
qed

section \<open>Reordering\<close>

text \<open>
  C6. \<open>updatePosition\<close> applies the caller's reassignments as one transaction: when one
  of the listed ids has no row of the caller, the call fails with not-found, nothing is
  committed and the store is the one before the call; when every listed id has one, the
  call succeeds whatever the new positions are (equal, with gaps, fractions or infinite),
  commits a single batch that holds one write per reassignment, returns one row per
  reassignment, and every row holds what the position column makes of the number the list
  gives it, which for an integer of the signed 32-bit range is that integer; all other
  columns and tables are as before. \<open>getAll\<close> returns the categories by ascending position. In particular, after
  \<open>updatePosition [{id: a, newPosition: 2}, {id: b, newPosition: 1}]\<close> on two categories
  of the caller in one menu, \<open>getAll\<close> of that menu lists \<open>b\<close> before \<open>a\<close>.
\<close>

theorem updatePosition_atomic_unvalidated_ordered:
  "((\<exists>item\<in>set input. category_findUnique s (pi_id item) uid = None) \<longrightarrow>
      updatePosition uid input s = thrown NotFound s [] []) \<and>
   ((\<forall>item\<in>set input. category_findUnique s (pi_id item) uid \<noteq> None) \<longrightarrow>
      (\<exists>rs. length rs = length input \<and>
         updatePosition uid input s =
           (returned rs (s\<lparr>categories := map (reposition (stored_position s) uid input)
                                          (categories s)\<rparr>) [] [])
           \<lparr>committed := [map (\<lambda>item. Category_update_position (pi_id item) uid
                                         (pi_newPosition item)) input]\<rparr>)) \<and>
   (- (2 ^ 31) \<le> n \<and> n < 2 ^ 31 \<longrightarrow> stored_position s (Num (of_int n)) = n) \<and>
   (\<exists>rows. getAll uid m s = returned rows s [] [] \<and>
      sorted (map (\<lambda>r. cat_position (fst r)) rows)) \<and>
   (a \<noteq> b \<and> category_findUnique s a uid = Some ca \<and> category_findUnique s b uid = Some cb \<and>
    cat_menuId ca = m \<and> cat_menuId cb = m \<longrightarrow>
      (\<exists>rs s' rows.
         result (updatePosition uid [\<lparr>pi_id = a, pi_newPosition = Num 2\<rparr>,
                                     \<lparr>pi_id = b, pi_newPosition = Num 1\<rparr>] s) = Inr rs \<and>
         db (updatePosition uid [\<lparr>pi_id = a, pi_newPosition = Num 2\<rparr>,
                                 \<lparr>pi_id = b, pi_newPosition = Num 1\<rparr>] s) = s' \<and>
         getAll uid m s' = returned rows s' [] [] \<and>
         occurs_before b a (listed_ids rows)))"
  using updatePosition_missing[of input s uid] updatePosition_present[of input s uid]
    getAll_sorted[of uid m s] swap_example[of a b s uid ca cb m]
    stored_position_integer[where s=s and n=n]
  unfolding position_ops_def by blast

theorem updatePosition_atomic_unvalidated_ordered_witness:
  "updatePosition ''alice'' [\<lparr>pi_id = ''A'', pi_newPosition = Num 7\<rparr>,
                            \<lparr>pi_id = ''Z'', pi_newPosition = Num 1\<rparr>]
      two_categories = thrown NotFound two_categories [] [] \<and>
   (\<exists>rs. length rs = 2 \<and>
      updatePosition ''alice'' [\<lparr>pi_id = ''A'', pi_newPosition = Num (3 / 2)\<rparr>,
                                \<lparr>pi_id = ''B'', pi_newPosition = Num (3 / 2)\<rparr>]
        two_categories =
      (returned rs
        (two_categories\<lparr>categories :=
           map (\<lambda>c. c\<lparr>cat_position := 1\<rparr>) (categories two_categories)\<rparr>) [] [])
      \<lparr>committed := [[Category_update_position ''A'' ''alice'' (Num (3 / 2)),
                       Category_update_position ''B'' ''alice'' (Num (3 / 2))]]\<rparr>) \<and>
   stored_position two_categories (Num 7) = 7 \<and>
   (\<exists>rs s' rows.
      result (updatePosition ''alice'' [\<lparr>pi_id = ''A'', pi_newPosition = Num 2\<rparr>,
                                        \<lparr>pi_id = ''B'', pi_newPosition = Num 1\<rparr>]
                two_categories) = Inr rs \<and>
      db (updatePosition ''alice'' [\<lparr>pi_id = ''A'', pi_newPosition = Num 2\<rparr>,
                                    \<lparr>pi_id = ''B'', pi_newPosition = Num 1\<rparr>]
            two_categories) = s' \<and>
      getAll ''alice'' ''m1'' s' = returned rows s' [] [] \<and>
      occurs_before ''B'' ''A'' (listed_ids rows))"
proof -
  let ?A = "\<lparr>cat_id = ''A'', cat_menuId = ''m1'', cat_userId = ''alice'', cat_name = ''Starters'',
            cat_position = 0, cat_imageUrl = None\<rparr>"
  let ?B = "\<lparr>cat_id = ''B'', cat_menuId = ''m1'', cat_userId = ''alice'', cat_name = ''Mains'',
            cat_position = 1, cat_imageUrl = None\<rparr>"
  let ?miss = "[\<lparr>pi_id = ''A'', pi_newPosition = Num 7\<rparr>, \<lparr>pi_id = ''Z'', pi_newPosition = Num 1\<rparr>]"
  let ?half = "[\<lparr>pi_id = ''A'', pi_newPosition = Num (3 / 2)\<rparr>,
                \<lparr>pi_id = ''B'', pi_newPosition = Num (3 / 2)\<rparr>]"
  have fA: "category_findUnique two_categories ''A'' ''alice'' = Some ?A"
    and fB: "category_findUnique two_categories ''B'' ''alice'' = Some ?B"
    and fZ: "category_findUnique two_categories ''Z'' ''alice'' = None"
    by (simp_all add: category_findUnique_def two_categories_def id_userId_def)
  have missing: "\<exists>item\<in>set ?miss. category_findUnique two_categories (pi_id item) ''alice'' = None"
    using fZ by simp
  have present: "\<forall>item\<in>set ?half. category_findUnique two_categories (pi_id item) ''alice'' \<noteq> None"
    using fA fB by simp
  have fl: "\<lfloor>3 / 2 :: rat\<rfloor> = 1" by (simp add: floor_eq_iff)
  have col: "stored_position two_categories (Num (3 / 2)) = 1"
    by (simp add: stored_position_def two_categories_def drops_fraction_def fl)
  have same: "map (reposition (stored_position two_categories) ''alice'' ?half)
                (categories two_categories)
              = map (\<lambda>c. c\<lparr>cat_position := 1\<rparr>) (categories two_categories)"
    by (simp add: reposition_def col) (simp add: two_categories_def id_userId_def)
  have swap: "''A'' \<noteq> ''B'' \<and> category_findUnique two_categories ''A'' ''alice'' = Some ?A \<and>
              category_findUnique two_categories ''B'' ''alice'' = Some ?B \<and>
              cat_menuId ?A = ''m1'' \<and> cat_menuId ?B = ''m1''"
    using fA fB by simp
  from updatePosition_atomic_unvalidated_ordered
         [where input="?miss" and s=two_categories and uid="''alice''"] missing
  have 1: "updatePosition ''alice'' ?miss two_categories = thrown NotFound two_categories [] []"
    by blast
  from updatePosition_atomic_unvalidated_ordered
         [where input="?half" and s=two_categories and uid="''alice''"] present
  have "\<exists>rs. length rs = length ?half \<and>
      updatePosition ''alice'' ?half two_categories =
      (returned rs
        (two_categories\<lparr>categories :=
           map (reposition (stored_position two_categories) ''alice'' ?half)
             (categories two_categories)\<rparr>) [] [])
      \<lparr>committed := [map (\<lambda>item. Category_update_position (pi_id item) ''alice''
                                    (pi_newPosition item)) ?half]\<rparr>"
    by blast
  then have 2: "\<exists>rs. length rs = 2 \<and>
      updatePosition ''alice'' ?half two_categories =
      (returned rs
        (two_categories\<lparr>categories :=
           map (\<lambda>c. c\<lparr>cat_position := 1\<rparr>) (categories two_categories)\<rparr>) [] [])
      \<lparr>committed := [[Category_update_position ''A'' ''alice'' (Num (3 / 2)),
                       Category_update_position ''B'' ''alice'' (Num (3 / 2))]]\<rparr>"
    unfolding same by (simp add: numeral_2_eq_2)
  from updatePosition_atomic_unvalidated_ordered
         [where input="[]" and s=two_categories and uid="''alice''" and m="''m1''"
            and a="''A''" and b="''B''" and ca="?A" and cb="?B"] swap
  have 3: "\<exists>rs s' rows.
      result (updatePosition ''alice'' [\<lparr>pi_id = ''A'', pi_newPosition = Num 2\<rparr>,
                                        \<lparr>pi_id = ''B'', pi_newPosition = Num 1\<rparr>]
                two_categories) = Inr rs \<and>
      db (updatePosition ''alice'' [\<lparr>pi_id = ''A'', pi_newPosition = Num 2\<rparr>,
                                    \<lparr>pi_id = ''B'', pi_newPosition = Num 1\<rparr>]
            two_categories) = s' \<and>
      getAll ''alice'' ''m1'' s' = returned rows s' [] [] \<and>
      occurs_before ''B'' ''A'' (listed_ids rows)"
    by blast
  have "- (2 ^ 31) \<le> (7::int) \<and> (7::int) < 2 ^ 31" by simp
  with updatePosition_atomic_unvalidated_ordered[where s=two_categories and n=7 and input="[]"]
  have 4: "stored_position two_categories (Num 7) = 7" by simp
  from 1 2 4 3 show ?thesis by (intro conjI)
qed

lemmas eval_defs = create_def category_create_def category_count_def category_findFirst_desc_def
  include_items_def items_of_def image_of_def thrown_def returned_def category_folder_def
  getAll_def include_items_asc_def category_findUnique_def id_userId_def
  env_ok_def env_down_def only_menu_def bobs_menu_def Let_def

section \<open>Ownership\<close>

text \<open>
  The statement that every procedure fails with not-found on an id or a menu of another
  user does not hold for \<open>getAll\<close> and \<open>create\<close>: in a store whose only menu and only
  category belong to bob, alice's \<open>getAll\<close> of that menu returns the empty list, and her
  \<open>create\<close> under that menu, where the schema accepts the row, succeeds and adds it.
\<close>

theorem foreign_menu_counterexample:
  "menus bobs_menu = [\<lparr>menu_id = ''m1'', menu_userId = ''bob''\<rparr>] \<and>
   map cat_userId (categories bobs_menu) = [''bob''] \<and>
   getAll ''alice'' ''m1'' bobs_menu = returned [] bobs_menu [] [] \<and>
   create (env_ok ''c2'') ''alice''
       \<lparr>ci_name = ''Mine'', ci_imageBase64 = None, ci_menuId = ''m1''\<rparr> bobs_menu
     = returned
         (\<lparr>cat_id = ''c2'', cat_menuId = ''m1'', cat_userId = ''alice'', cat_name = ''Mine'',
           cat_position = 0, cat_imageUrl = None\<rparr>, [])
         (bobs_menu\<lparr>categories := categories bobs_menu @
            [\<lparr>cat_id = ''c2'', cat_menuId = ''m1'', cat_userId = ''alice'', cat_name = ''Mine'',
              cat_position = 0, cat_imageUrl = None\<rparr>]\<rparr>) [] []"
  by (simp add: eval_defs)

lemma update_missing:
  "category_findUnique s (ui_id input) uid = None \<Longrightarrow> update env uid input s = thrown NotFound s [] []"
  by (simp add: update_def)

lemma delete_missing:
  "category_findUnique s i uid = None \<Longrightarrow> delete env uid i s = thrown NotFound s [] []"
  by (simp add: delete_def)

lemma getAll_scoped:
  "\<exists>rows. getAll uid m s = returned rows s [] [] \<and>
     (\<forall>r\<in>set rows. cat_userId (fst r) = uid \<and> cat_menuId (fst r) = m) \<and>
     ((\<forall>c\<in>set (categories s). cat_menuId c = m \<longrightarrow> cat_userId c \<noteq> uid) \<longrightarrow> rows = [])"
  unfolding getAll_def
  by (rule exI[of _ "map (include_items_asc s) (sort_key cat_position
        (filter (\<lambda>c. cat_menuId c = m \<and> cat_userId c = uid) (categories s)))"])
     (auto simp: include_items_asc_def filter_empty_conv)

lemma create_cases:
  "(result (create env uid input s) = Inl UniqueConstraintViolation \<and>
      db (create env uid input s) = s) \<or>
   (result (create env uid input s) = Inl ForeignKeyViolation \<and>
      db (create env uid input s) = s) \<or>
   (result (create env uid input s) = Inl ExternalServiceError \<and>
      db (create env uid input s) = s) \<or>
   (\<exists>c items. result (create env uid input s) = Inr (c, items) \<and>
      db (create env uid input s) = s\<lparr>categories := categories s @ [c]\<rparr> \<and>
      cat_userId c = uid \<and> cat_menuId c = ci_menuId input \<and> cat_name c = ci_name input \<and>
      cat_id c = generated_id env \<and>
      cat_position c = (case category_findFirst_desc s (ci_menuId input) uid of
                          Some l \<Rightarrow> cat_position l + 1 | None \<Rightarrow> 0))"
  by (auto simp: create_def Let_def thrown_def category_create_def include_items_def
           split: option.splits if_splits prod.splits)

text \<open>
  C1 (amended). When every row with the given id belongs to a user other than the caller,
  \<open>update\<close> and \<open>delete\<close> fail with not-found, the store is unchanged and no image-store
  call is issued; so does \<open>updatePosition\<close> when one of its ids is such an id. \<open>getAll\<close>
  never fails and never changes the store: it returns only categories of the caller in
  the given menu, hence the empty list for a menu in which the caller owns no category.
  \<open>create\<close> looks up neither the menu nor its owner and never fails with not-found (it
  fails only when the store rejects the new row or the image store throws): when it
  succeeds, the new row belongs to the caller and to the given menu and is added to the
  rows already there, which stay as they are.
\<close>

theorem foreign_id_not_found:
  "((\<forall>c\<in>set (categories s). cat_id c = ui_id uinput \<longrightarrow> cat_userId c \<noteq> uid) \<longrightarrow>
      update env uid uinput s = thrown NotFound s [] []) \<and>
   ((\<forall>c\<in>set (categories s). cat_id c = i \<longrightarrow> cat_userId c \<noteq> uid) \<longrightarrow>
      delete env uid i s = thrown NotFound s [] []) \<and>
   ((\<exists>item\<in>set pinput. \<forall>c\<in>set (categories s). cat_id c = pi_id item \<longrightarrow> cat_userId c \<noteq> uid) \<longrightarrow>
      updatePosition uid pinput s = thrown NotFound s [] []) \<and>
   (\<exists>rows. getAll uid m s = returned rows s [] [] \<and>
      (\<forall>r\<in>set rows. cat_userId (fst r) = uid \<and> cat_menuId (fst r) = m) \<and>
      ((\<forall>c\<in>set (categories s). cat_menuId c = m \<longrightarrow> cat_userId c \<noteq> uid) \<longrightarrow> rows = [])) \<and>
   result (create env uid cinput s) \<noteq> Inl NotFound \<and>
   (\<forall>c items. result (create env uid cinput s) = Inr (c, items) \<longrightarrow>
      cat_userId c = uid \<and> cat_menuId c = ci_menuId cinput \<and>
      db (create env uid cinput s) = s\<lparr>categories := categories s @ [c]\<rparr>)"
proof -
  have "result (create env uid cinput s) \<noteq> Inl NotFound"
    using create_cases[of env uid cinput s] by auto
  moreover have "\<forall>c items. result (create env uid cinput s) = Inr (c, items) \<longrightarrow>
      cat_userId c = uid \<and> cat_menuId c = ci_menuId cinput \<and>
      db (create env uid cinput s) = s\<lparr>categories := categories s @ [c]\<rparr>"
    using create_cases[of env uid cinput s] by auto
  ultimately show ?thesis
    using update_missing[of s uinput uid env] delete_missing[of s i uid env]
      updatePosition_missing[of pinput s uid] getAll_scoped[of uid m s]
    unfolding findUnique_None_iff by blast
qed

theorem foreign_id_not_found_witness:
  "update (env_ok ''c2'') ''alice'' \<lparr>ui_name = ''Taken'', ui_imageBase64 = Some ''img'', ui_id = ''c1''\<rparr>
      bobs_menu = thrown NotFound bobs_menu [] [] \<and>
   delete (env_ok ''c2'') ''alice'' ''c1'' bobs_menu = thrown NotFound bobs_menu [] [] \<and>
   updatePosition ''alice'' [\<lparr>pi_id = ''c1'', pi_newPosition = Num 4\<rparr>] bobs_menu
     = thrown NotFound bobs_menu [] [] \<and>
   getAll ''alice'' ''m1'' bobs_menu = returned [] bobs_menu [] [] \<and>
   (\<exists>c items.
      result (create (env_ok ''c2'') ''alice''
                \<lparr>ci_name = ''Mine'', ci_imageBase64 = None, ci_menuId = ''m1''\<rparr> bobs_menu)
        = Inr (c, items) \<and>
      cat_userId c = ''alice'' \<and> cat_menuId c = ''m1'' \<and>
      db (create (env_ok ''c2'') ''alice''
            \<lparr>ci_name = ''Mine'', ci_imageBase64 = None, ci_menuId = ''m1''\<rparr> bobs_menu)
        = bobs_menu\<lparr>categories := categories bobs_menu @ [c]\<rparr>)"
proof -
  let ?ui = "\<lparr>ui_name = ''Taken'', ui_imageBase64 = Some ''img'', ui_id = ''c1''\<rparr>"
  let ?pi = "[\<lparr>pi_id = ''c1'', pi_newPosition = Num 4\<rparr>]"
  let ?ci = "\<lparr>ci_name = ''Mine'', ci_imageBase64 = None, ci_menuId = ''m1''\<rparr>"
  note T = foreign_id_not_found[of bobs_menu ?ui "''alice''" "env_ok ''c2''" "''c1''" ?pi "''m1''" ?ci]
  have h1: "\<forall>c\<in>set (categories bobs_menu). cat_id c = ui_id ?ui \<longrightarrow> cat_userId c \<noteq> ''alice''"
    and h2: "\<forall>c\<in>set (categories bobs_menu). cat_id c = ''c1'' \<longrightarrow> cat_userId c \<noteq> ''alice''"
    and h3: "\<exists>item\<in>set ?pi. \<forall>c\<in>set (categories bobs_menu).
               cat_id c = pi_id item \<longrightarrow> cat_userId c \<noteq> ''alice''"
    and h4: "\<forall>c\<in>set (categories bobs_menu). cat_menuId c = ''m1'' \<longrightarrow> cat_userId c \<noteq> ''alice''"
    by (simp_all add: bobs_menu_def)
  have created: "\<exists>c items. result (create (env_ok ''c2'') ''alice'' ?ci bobs_menu) = Inr (c, items)"
    by (simp add: eval_defs)
  from T h1 have 1: "update (env_ok ''c2'') ''alice'' ?ui bobs_menu = thrown NotFound bobs_menu [] []"
    by blast
  from T h2 have 2: "delete (env_ok ''c2'') ''alice'' ''c1'' bobs_menu = thrown NotFound bobs_menu [] []"
    by blast
  from T h3 have 3: "updatePosition ''alice'' ?pi bobs_menu = thrown NotFound bobs_menu [] []"
    by blast
  from T h4 have 4: "getAll ''alice'' ''m1'' bobs_menu = returned [] bobs_menu [] []"
    by blast
  from T created have 5: "\<exists>c items.
      result (create (env_ok ''c2'') ''alice'' ?ci bobs_menu) = Inr (c, items) \<and>
      cat_userId c = ''alice'' \<and> cat_menuId c = ''m1'' \<and>
      db (create (env_ok ''c2'') ''alice'' ?ci bobs_menu)
        = bobs_menu\<lparr>categories := categories bobs_menu @ [c]\<rparr>"
    by (metis create_input.select_convs(3))
  from 1 2 3 4 5 show ?thesis by blast
qed

section \<open>Positions of new categories\<close>

lemma sort_key_desc_head:
  fixes f :: "'a \<Rightarrow> int"
  assumes "sort_key (\<lambda>x. - f x) xs = y # ys"
  shows "f y = Max (f ` set xs)"
proof -
  have "sorted (map (\<lambda>x. - f x) (y # ys))"
    using sorted_sort_key[of "\<lambda>x. - f x" xs] assms by simp
  then have le: "\<forall>z\<in>set ys. f z \<le> f y" by auto
  have set_eq: "set xs = set (y # ys)" using set_sort[of "\<lambda>x. - f x" xs] assms by simp
  show ?thesis
  proof (rule Max_eqI[symmetric])
    show "finite (f ` set xs)" by simp
    show "f y \<in> f ` set xs" using set_eq by simp
    fix v assume "v \<in> f ` set xs"
    then show "v \<le> f y" using set_eq le by auto
  qed
qed

lemma findFirst_desc_next:
  "(case category_findFirst_desc s m uid of Some l \<Rightarrow> cat_position l + 1 | None \<Rightarrow> 0)
   = next_position s m uid"
proof (cases "sort_key (\<lambda>c. - cat_position c)
                (filter (\<lambda>c. cat_menuId c = m \<and> cat_userId c = uid) (categories s))")
  case Nil
  then have "filter (\<lambda>c. cat_menuId c = m \<and> cat_userId c = uid) (categories s) = []"
    using length_sort[of "\<lambda>c. - cat_position c"
            "filter (\<lambda>c. cat_menuId c = m \<and> cat_userId c = uid) (categories s)"]
    by (simp del: length_sort)
  with Nil show ?thesis
    by (simp add: category_findFirst_desc_def next_position_def own_positions_def)
next
  case (Cons y ys)
  then have ne: "filter (\<lambda>c. cat_menuId c = m \<and> cat_userId c = uid) (categories s) \<noteq> []"
    by auto
  from sort_key_desc_head[OF Cons] ne Cons show ?thesis
    by (simp add: category_findFirst_desc_def next_position_def own_positions_def)
qed

lemma create_position:
  "result (create env uid input s) = Inr (c, items) \<Longrightarrow>
   cat_position c = next_position s (ci_menuId input) uid"
  using create_cases[of env uid input s] by (auto simp: findFirst_desc_next)

lemma next_position_after_create:
  assumes "result (create env uid input s) = Inr (c, items)"
  shows "next_position (db (create env uid input s)) (ci_menuId input) uid
         = next_position s (ci_menuId input) uid + 1"
proof -
  let ?m = "ci_menuId input"
  define n where "n = next_position s ?m uid"
  define ps where "ps = own_positions s ?m uid"
  from create_cases[of env uid input s] assms
  have s': "db (create env uid input s) = s\<lparr>categories := categories s @ [c]\<rparr>"
    and c: "cat_userId c = uid" "cat_menuId c = ?m" by auto
  have pos: "cat_position c = n" unfolding n_def by (rule create_position[OF assms])
  have own: "own_positions (db (create env uid input s)) ?m uid = ps @ [n]"
    by (simp add: s' own_positions_def c pos ps_def)
  have n: "n = (if ps = [] then 0 else Max (set ps) + 1)"
    by (simp add: n_def ps_def next_position_def)
  have "Max (set (ps @ [n])) = n"
  proof (cases "ps = []")
    case True
    then show ?thesis by simp
  next
    case False
    then have "Max (insert (Max (set ps) + 1) (set ps)) = Max (set ps) + 1"
      by (subst Max_insert) simp_all
    with False n show ?thesis by simp
  qed
  moreover have "next_position (db (create env uid input s)) ?m uid = Max (set (ps @ [n])) + 1"
    unfolding next_position_def own by simp
  ultimately show ?thesis by (simp add: n_def)
qed

lemma create_all_positions:
  "create_all uid steps s = Inr (cs, s') \<Longrightarrow> \<forall>step\<in>set steps. ci_menuId (snd step) = m \<Longrightarrow>
   map cat_position cs = map (\<lambda>k. next_position s m uid + int k) [0..<length steps]"
proof (induction steps arbitrary: s cs)
  case Nil
  then show ?case by simp
next
  case (Cons step steps)
  obtain env input where step: "step = (env, input)" by (cases step)
  from Cons.prems(2) step have m: "ci_menuId input = m" by simp
  from Cons.prems(1) step obtain c items cs' where
    r: "result (create env uid input s) = Inr (c, items)"
    and rest: "create_all uid steps (db (create env uid input s)) = Inr (cs', s')"
    and cs: "cs = c # cs'"
    by (auto split: sum.splits prod.splits)
  from Cons.IH[OF rest] Cons.prems(2)
  have "map cat_position cs' =
        map (\<lambda>k. next_position (db (create env uid input s)) m uid + int k) [0..<length steps]"
    by simp
  also have "\<dots> = map (\<lambda>k. next_position s m uid + int (Suc k)) [0..<length steps]"
    using next_position_after_create[OF r] m by simp
  finally have tl: "map cat_position cs' = map (\<lambda>k. next_position s m uid + int k) (map Suc [0..<length steps])"
    by (simp add: comp_def)
  have "[0..<length (step # steps)] = 0 # map Suc [0..<length steps]"
    by (simp add: upt_conv_Cons map_Suc_upt del: upt_Suc)
  with tl create_position[OF r] m cs show ?case by simp
qed

text \<open>
  The position is not one more than the greatest position in the menu: bob creates the
  first category of the menu (position 0, which gives the store \<open>bobs_menu\<close>), then alice
  creates a category under the same menu, which no check of the router prevents, and
  gets position 0 again, not 1. (The schema is taken to accept her row.)
\<close>

theorem create_position_counterexample:
  "db (create (env_ok ''c1'') ''bob''
         \<lparr>ci_name = ''Starters'', ci_imageBase64 = None, ci_menuId = ''m1''\<rparr> only_menu) = bobs_menu \<and>
   map cat_position (filter (\<lambda>c. cat_menuId c = ''m1'') (categories bobs_menu)) = [0] \<and>
   result (create (env_ok ''c2'') ''alice''
             \<lparr>ci_name = ''Mine'', ci_imageBase64 = None, ci_menuId = ''m1''\<rparr> bobs_menu)
     = Inr (\<lparr>cat_id = ''c2'', cat_menuId = ''m1'', cat_userId = ''alice'', cat_name = ''Mine'',
             cat_position = 0, cat_imageUrl = None\<rparr>, [])"
  by (simp add: eval_defs)

text \<open>
  C2 (amended). The category that \<open>create\<close> creates gets the greatest position among the
  caller's own categories of that menu plus 1, or 0 when the caller has none there. These
  are the positions of all categories of the menu when all of them belong to the caller.
  Consequently the categories one caller creates in sequence in one menu, starting with
  none of the caller's there, get the positions 0, 1, 2, ...
\<close>

theorem create_position_next_of_own:
  "(\<forall>c items. result (create env uid input s) = Inr (c, items) \<longrightarrow>
      cat_position c =
        (if own_positions s (ci_menuId input) uid = [] then 0
         else Max (set (own_positions s (ci_menuId input) uid)) + 1)) \<and>
   ((\<forall>c\<in>set (categories s). cat_menuId c = m \<longrightarrow> cat_userId c = uid) \<longrightarrow>
      own_positions s m uid = map cat_position (filter (\<lambda>c. cat_menuId c = m) (categories s))) \<and>
   ((\<forall>step\<in>set steps. ci_menuId (snd step) = m) \<and> own_positions s m uid = [] \<and>
    create_all uid steps s = Inr (cs, s') \<longrightarrow>
      map cat_position cs = map int [0..<length steps])"
proof -
  have "map cat_position cs = map int [0..<length steps]"
    if "\<forall>step\<in>set steps. ci_menuId (snd step) = m" "own_positions s m uid = []"
       "create_all uid steps s = Inr (cs, s')"
    using create_all_positions[OF that(3) that(1)] that(2) by (simp add: next_position_def)
  moreover have "own_positions s m uid = map cat_position (filter (\<lambda>c. cat_menuId c = m) (categories s))"
    if "\<forall>c\<in>set (categories s). cat_menuId c = m \<longrightarrow> cat_userId c = uid"
  proof -
    have "filter (\<lambda>c. cat_menuId c = m \<and> cat_userId c = uid) (categories s)
          = filter (\<lambda>c. cat_menuId c = m) (categories s)"
      using that by (intro filter_cong) auto
    then show ?thesis by (simp add: own_positions_def)
  qed
  ultimately show ?thesis
    using create_position[of env uid input s] unfolding next_position_def by blast
qed

theorem create_position_next_of_own_witness:
  "(\<exists>c items. result (create (env_ok ''c2'') ''bob''
                        \<lparr>ci_name = ''Mains'', ci_imageBase64 = None, ci_menuId = ''m1''\<rparr> bobs_menu)
                 = Inr (c, items) \<and>
               cat_position c = 1) \<and>
   own_positions bobs_menu ''m1'' ''bob''
     = map cat_position (filter (\<lambda>c. cat_menuId c = ''m1'') (categories bobs_menu)) \<and>
   (\<exists>cs s'. create_all ''bob'' three_creates only_menu = Inr (cs, s') \<and>
            map cat_position cs = [0, 1, 2])"
proof -
  let ?in = "\<lparr>ci_name = ''Mains'', ci_imageBase64 = None, ci_menuId = ''m1''\<rparr>"
  have own: "own_positions bobs_menu (ci_menuId ?in) ''bob'' = [0]"
    by (simp add: own_positions_def bobs_menu_def)
  have r: "\<exists>c items. result (create (env_ok ''c2'') ''bob'' ?in bobs_menu) = Inr (c, items)"
    by (simp add: eval_defs)
  then obtain c items where
    ci: "result (create (env_ok ''c2'') ''bob'' ?in bobs_menu) = Inr (c, items)" by blast
  with create_position_next_of_own[where env="env_ok ''c2''" and uid="''bob''" and input="?in"
         and s=bobs_menu]
  have "cat_position c = (if own_positions bobs_menu (ci_menuId ?in) ''bob'' = [] then 0
          else Max (set (own_positions bobs_menu (ci_menuId ?in) ''bob'')) + 1)"
    by blast
  then have "cat_position c = 1" unfolding own by simp
  with ci have 1: "\<exists>c items. result (create (env_ok ''c2'') ''bob'' ?in bobs_menu) = Inr (c, items) \<and>
                     cat_position c = 1" by simp
  have h1: "\<forall>step\<in>set three_creates. ci_menuId (snd step) = ''m1''"
    by (simp add: three_creates_def)
  have h2: "own_positions only_menu ''m1'' ''bob'' = []"
    by (simp add: own_positions_def only_menu_def)
  have h3: "\<exists>cs s'. create_all ''bob'' three_creates only_menu = Inr (cs, s')"
    by (simp add: three_creates_def eval_defs)
  then obtain cs s' where cs: "create_all ''bob'' three_creates only_menu = Inr (cs, s')" by blast
  with create_position_next_of_own[where uid="''bob''" and s=only_menu and steps=three_creates
         and m="''m1''" and cs=cs and s'=s'] h1 h2
  have "map cat_position cs = map int [0..<length three_creates]" by blast
  then have "map cat_position cs = [0, 1, 2]"
    by (simp add: three_creates_def upt_rec)
  with cs have 2: "\<exists>cs s'. create_all ''bob'' three_creates only_menu = Inr (cs, s') \<and>
                     map cat_position cs = [0, 1, 2]" by simp
  have "\<forall>c\<in>set (categories bobs_menu). cat_menuId c = ''m1'' \<longrightarrow> cat_userId c = ''bob''"
    by (simp add: bobs_menu_def)
  with create_position_next_of_own[where uid="''bob''" and s=bobs_menu and m="''m1''"]
  have 3: "own_positions bobs_menu ''m1'' ''bob''
           = map cat_position (filter (\<lambda>c. cat_menuId c = ''m1'') (categories bobs_menu))"
    by blast
  from 1 3 2 show ?thesis by (intro conjI)
qed

section \<open>Deleting a category\<close>

lemma delete_transaction_found:
  assumes "category_findUnique s i uid = Some c"
  shows "\<exists>rs. transaction (delete_transactions i uid imagePaths) s
               = (Inr rs, deleted_from s i uid imagePaths)"
proof -
  let ?s1 = "s\<lparr>menuItems := filter (\<lambda>it. item_categoryId it \<noteq> i) (menuItems s)\<rparr>"
  have f1: "category_findUnique ?s1 i uid = Some c"
    using assms by (simp add: category_findUnique_def)
  show ?thesis
  proof (cases "imagePaths = []")
    case True
    then show ?thesis using f1
      by (simp add: transaction_def delete_transactions_def deleted_from_def)
  next
    case False
    then show ?thesis using f1
      by (simp add: transaction_def delete_transactions_def deleted_from_def)
  qed
qed

lemma delete_transaction_missing:
  assumes "category_findUnique s i uid = None"
  shows "transaction (delete_transactions i uid imagePaths) s = (Inl NotFound, s)"
proof -
  let ?s1 = "s\<lparr>menuItems := filter (\<lambda>it. item_categoryId it \<noteq> i) (menuItems s)\<rparr>"
  have "category_findUnique ?s1 i uid = None"
    using assms by (simp add: category_findUnique_def)
  then show ?thesis
    by (simp add: transaction_def delete_transactions_def)
qed

lemma delete_writes_found:
  assumes "category_findUnique s i uid = Some c'"
  shows "delete_writes env uid i (c, its) s =
           (returned (c, its)
             (deleted_from s i uid (imagePaths_of its))
             (fst (delete_old_image env (cat_imageUrl c) ''Failed to delete category image:'') @
              delete_promiseList (imagePaths_of its))
             (snd (delete_old_image env (cat_imageUrl c) ''Failed to delete category image:'')))
           \<lparr>committed := [delete_transactions i uid (imagePaths_of its)]\<rparr>"
proof -
  obtain rs where "transaction (delete_transactions i uid (imagePaths_of its)) s
                   = (Inr rs, deleted_from s i uid (imagePaths_of its))"
    using delete_transaction_found[OF assms] by blast
  then show ?thesis
    by (simp add: delete_writes_def Let_def split: prod.splits)
qed

lemma delete_writes_missing:
  assumes "category_findUnique s i uid = None"
  shows "delete_writes env uid i (c, its) s =
           thrown NotFound s
             (fst (delete_old_image env (cat_imageUrl c) ''Failed to delete category image:'') @
              delete_promiseList (imagePaths_of its))
             (snd (delete_old_image env (cat_imageUrl c) ''Failed to delete category image:''))"
  using delete_transaction_missing[OF assms]
  by (simp add: delete_writes_def Let_def split: prod.splits)

lemma delete_found:
  assumes "category_findUnique s i uid = Some c"
  shows "delete env uid i s =
           (returned (c, items_of s c)
             (deleted_from s i uid (imagePaths_of (items_of s c)))
             (fst (delete_old_image env (cat_imageUrl c) ''Failed to delete category image:'') @
              delete_promiseList (imagePaths_of (items_of s c)))
             (snd (delete_old_image env (cat_imageUrl c) ''Failed to delete category image:'')))
           \<lparr>committed := [delete_transactions i uid (imagePaths_of (items_of s c))]\<rparr>"
  using assms delete_writes_found[OF assms] by (simp add: delete_def)

lemma getAll_listed:
  "\<exists>rows. getAll u m s = returned rows s [] [] \<and>
          set (listed_ids rows) = cat_id ` {c \<in> set (categories s). cat_menuId c = m \<and> cat_userId c = u}"
  unfolding getAll_def
  by (rule exI[of _ "map (include_items_asc s) (sort_key cat_position
        (filter (\<lambda>c. cat_menuId c = m \<and> cat_userId c = u) (categories s)))"])
     (auto simp: include_items_asc_def listed_ids_def)

lemma transaction_rollback:
  "fst (transaction xs s) = Inl e \<Longrightarrow> snd (transaction xs s) = s"
  by (auto simp: transaction_def split: sum.splits prod.splits)

text \<open>
  The deletion of the Image records is not outside the transaction: for a category with
  an item that has an image, the one batch that \<open>delete\<close> commits through
  \<^verbatim>\<open>$transaction\<close> holds the three writes, the \<open>image.deleteMany\<close> among them, and only
  \<open>bulkDeleteFiles\<close> is issued beside it. With every image-store call failing, the Image
  record of the item is gone after the call all the same.
\<close>

theorem delete_transaction_counterexample:
  "committed (delete (env_down ''x'') ''alice'' ''c1'' with_item_image)
     = [[MenuItem_deleteMany ''c1'', Category_delete ''c1'' ''alice'', Image_deleteMany [''img1'']]] \<and>
   calls (delete (env_down ''x'') ''alice'' ''c1'' with_item_image)
     = [DeleteFile ''user/alice/category/old'', BulkDeleteFiles [''img1'']] \<and>
   images (db (delete (env_down ''x'') ''alice'' ''c1'' with_item_image)) = [\<lparr>image_id = ''img3''\<rparr>]"
proof -
  let ?c = "\<lparr>cat_id = ''c1'', cat_menuId = ''m1'', cat_userId = ''alice'', cat_name = ''Starters'',
             cat_position = 0, cat_imageUrl = Some ''user/alice/category/old''\<rparr>"
  have f: "category_findUnique with_item_image ''c1'' ''alice'' = Some ?c"
    by (simp add: category_findUnique_def with_item_image_def id_userId_def)
  have p: "imagePaths_of (items_of with_item_image ?c) = [''img1'']"
    by (simp add: items_of_def with_item_image_def)
  show ?thesis
    unfolding delete_found[OF f] p
    by (simp add: returned_def deleted_from_def with_item_image_def delete_transactions_def
          delete_promiseList_def delete_old_image_def try_deleteFile_def)
qed

text \<open>
  C3 (amended). In \<open>delete\<close> of a category of the caller, the deletions of the child
  MenuItem rows, of the Category row and, when an item has an image, of the Image records
  are grouped in one atomic transaction: the call commits exactly one batch, which holds
  these writes, and the store is left without any of these rows. The bulk deletion of the
  image assets is issued concurrently with that transaction (started before it, its
  outcome never awaited) and is not part of it: it is among the image-store calls, not
  among the writes of the batch, and neither the result nor the store nor the batch
  depends on what the image store does. When the transaction meets a
  store from which the Category row has gone since the lookup, it fails as a whole: the
  call throws, nothing is committed, the MenuItem and Image rows are all still there, and
  the image-store calls have been issued all the same. Without a category of the caller
  under the id, \<open>delete\<close> fails with not-found before anything is issued.
\<close>

theorem delete_one_transaction:
  "(category_findUnique s i uid = None \<longrightarrow> delete env uid i s = thrown NotFound s [] []) \<and>
   (category_findUnique s i uid = Some c \<and> paths = imagePaths_of (items_of s c) \<longrightarrow>
      delete env uid i s = delete_writes env uid i (c, items_of s c) s \<and>
      committed (delete env uid i s) =
        [[MenuItem_deleteMany i, Category_delete i uid] @
         (if paths \<noteq> [] then [Image_deleteMany paths] else [])] \<and>
      result (delete env uid i s) = Inr (c, items_of s c) \<and>
      db (delete env uid i s) = deleted_from s i uid paths \<and>
      calls (delete env uid i s) =
        fst (delete_old_image env (cat_imageUrl c) ''Failed to delete category image:'') @
        (if paths \<noteq> [] then [BulkDeleteFiles paths] else []) \<and>
      result (delete env' uid i s) = result (delete env uid i s) \<and>
      db (delete env' uid i s) = db (delete env uid i s) \<and>
      committed (delete env' uid i s) = committed (delete env uid i s)) \<and>
   (category_findUnique s1 i uid = None \<and> paths1 = imagePaths_of its \<longrightarrow>
      result (delete_writes env uid i (c1, its) s1) = Inl NotFound \<and>
      db (delete_writes env uid i (c1, its) s1) = s1 \<and>
      committed (delete_writes env uid i (c1, its) s1) = [] \<and>
      calls (delete_writes env uid i (c1, its) s1) =
        fst (delete_old_image env (cat_imageUrl c1) ''Failed to delete category image:'') @
        (if paths1 \<noteq> [] then [BulkDeleteFiles paths1] else [])) \<and>
   (category_findUnique s1 i uid \<noteq> None \<and> paths1 = imagePaths_of its \<longrightarrow>
      result (delete_writes env uid i (c1, its) s1) = Inr (c1, its) \<and>
      db (delete_writes env uid i (c1, its) s1) = deleted_from s1 i uid paths1 \<and>
      committed (delete_writes env uid i (c1, its) s1) =
        [[MenuItem_deleteMany i, Category_delete i uid] @
         (if paths1 \<noteq> [] then [Image_deleteMany paths1] else [])])"
proof -
  have 1: "delete env uid i s = thrown NotFound s [] []" if "category_findUnique s i uid = None"
    using that by (simp add: delete_def)
  have 2: "delete env uid i s = delete_writes env uid i (c, items_of s c) s \<and>
      committed (delete env uid i s) =
        [[MenuItem_deleteMany i, Category_delete i uid] @
         (if paths \<noteq> [] then [Image_deleteMany paths] else [])] \<and>
      result (delete env uid i s) = Inr (c, items_of s c) \<and>
      db (delete env uid i s) = deleted_from s i uid paths \<and>
      calls (delete env uid i s) =
        fst (delete_old_image env (cat_imageUrl c) ''Failed to delete category image:'') @
        (if paths \<noteq> [] then [BulkDeleteFiles paths] else []) \<and>
      result (delete env' uid i s) = result (delete env uid i s) \<and>
      db (delete env' uid i s) = db (delete env uid i s) \<and>
      committed (delete env' uid i s) = committed (delete env uid i s)"
    if f: "category_findUnique s i uid = Some c" and p: "paths = imagePaths_of (items_of s c)"
  proof -
    have eq: "delete env uid i s = delete_writes env uid i (c, items_of s c) s"
      using f by (simp add: delete_def)
    have rest: "committed (delete env uid i s) =
        [[MenuItem_deleteMany i, Category_delete i uid] @
         (if paths \<noteq> [] then [Image_deleteMany paths] else [])] \<and>
      result (delete env uid i s) = Inr (c, items_of s c) \<and>
      db (delete env uid i s) = deleted_from s i uid paths \<and>
      calls (delete env uid i s) =
        fst (delete_old_image env (cat_imageUrl c) ''Failed to delete category image:'') @
        (if paths \<noteq> [] then [BulkDeleteFiles paths] else []) \<and>
      result (delete env' uid i s) = result (delete env uid i s) \<and>
      db (delete env' uid i s) = db (delete env uid i s) \<and>
      committed (delete env' uid i s) = committed (delete env uid i s)"
      unfolding delete_found[OF f] p
      by (simp add: returned_def delete_promiseList_def delete_transactions_def)
    from eq rest show ?thesis by (rule conjI)
  qed
  have 3: "result (delete_writes env uid i (c1, its) s1) = Inl NotFound \<and>
      db (delete_writes env uid i (c1, its) s1) = s1 \<and>
      committed (delete_writes env uid i (c1, its) s1) = [] \<and>
      calls (delete_writes env uid i (c1, its) s1) =
        fst (delete_old_image env (cat_imageUrl c1) ''Failed to delete category image:'') @
        (if paths1 \<noteq> [] then [BulkDeleteFiles paths1] else [])"
    if "category_findUnique s1 i uid = None" "paths1 = imagePaths_of its"
    unfolding delete_writes_missing[OF that(1)] that(2)
    by (simp add: thrown_def delete_promiseList_def)
  have 4: "result (delete_writes env uid i (c1, its) s1) = Inr (c1, its) \<and>
      db (delete_writes env uid i (c1, its) s1) = deleted_from s1 i uid paths1 \<and>
      committed (delete_writes env uid i (c1, its) s1) =
        [[MenuItem_deleteMany i, Category_delete i uid] @
         (if paths1 \<noteq> [] then [Image_deleteMany paths1] else [])]"
    if "category_findUnique s1 i uid \<noteq> None" "paths1 = imagePaths_of its"
  proof -
    from that(1) obtain c' where f: "category_findUnique s1 i uid = Some c'" by auto
    show ?thesis unfolding delete_writes_found[OF f] that(2)
      by (simp add: returned_def delete_transactions_def)
  qed
  from 1 2 3 4 show ?thesis by blast
qed

theorem delete_one_transaction_witness:
  "delete (env_ok ''x'') ''bob'' ''c1'' with_item_image = thrown NotFound with_item_image [] [] \<and>
   committed (delete (env_down ''x'') ''alice'' ''c1'' with_item_image)
     = [[MenuItem_deleteMany ''c1'', Category_delete ''c1'' ''alice'', Image_deleteMany [''img1'']]] \<and>
   db (delete (env_down ''x'') ''alice'' ''c1'' with_item_image)
     = deleted_from with_item_image ''c1'' ''alice'' [''img1''] \<and>
   calls (delete (env_down ''x'') ''alice'' ''c1'' with_item_image)
     = [DeleteFile ''user/alice/category/old'', BulkDeleteFiles [''img1'']] \<and>
   db (delete (env_ok ''x'') ''alice'' ''c1'' with_item_image)
     = db (delete (env_down ''x'') ''alice'' ''c1'' with_item_image) \<and>
   result (delete_writes (env_down ''x'') ''alice'' ''c1''
             (\<lparr>cat_id = ''c1'', cat_menuId = ''m1'', cat_userId = ''alice'', cat_name = ''Starters'',
               cat_position = 0, cat_imageUrl = Some ''user/alice/category/old''\<rparr>,
              [\<lparr>item_id = ''i1'', item_categoryId = ''c1'', item_imageId = Some ''img1'',
                item_position = 0\<rparr>])
             (with_item_image\<lparr>categories := []\<rparr>)) = Inl NotFound \<and>
   db (delete_writes (env_down ''x'') ''alice'' ''c1''
             (\<lparr>cat_id = ''c1'', cat_menuId = ''m1'', cat_userId = ''alice'', cat_name = ''Starters'',
               cat_position = 0, cat_imageUrl = Some ''user/alice/category/old''\<rparr>,
              [\<lparr>item_id = ''i1'', item_categoryId = ''c1'', item_imageId = Some ''img1'',
                item_position = 0\<rparr>])
             (with_item_image\<lparr>categories := []\<rparr>)) = with_item_image\<lparr>categories := []\<rparr> \<and>
   calls (delete_writes (env_down ''x'') ''alice'' ''c1''
             (\<lparr>cat_id = ''c1'', cat_menuId = ''m1'', cat_userId = ''alice'', cat_name = ''Starters'',
               cat_position = 0, cat_imageUrl = Some ''user/alice/category/old''\<rparr>,
              [\<lparr>item_id = ''i1'', item_categoryId = ''c1'', item_imageId = Some ''img1'',
                item_position = 0\<rparr>])
             (with_item_image\<lparr>categories := []\<rparr>))
     = [DeleteFile ''user/alice/category/old'', BulkDeleteFiles [''img1'']] \<and>
   db (delete_writes (env_down ''x'') ''alice'' ''c1''
             (\<lparr>cat_id = ''c1'', cat_menuId = ''m1'', cat_userId = ''alice'', cat_name = ''Starters'',
               cat_position = 0, cat_imageUrl = Some ''user/alice/category/old''\<rparr>,
              [\<lparr>item_id = ''i1'', item_categoryId = ''c1'', item_imageId = Some ''img1'',
                item_position = 0\<rparr>])
             with_item_image) = deleted_from with_item_image ''c1'' ''alice'' [''img1'']"
proof -
  let ?c = "\<lparr>cat_id = ''c1'', cat_menuId = ''m1'', cat_userId = ''alice'', cat_name = ''Starters'',
             cat_position = 0, cat_imageUrl = Some ''user/alice/category/old''\<rparr>"
  let ?its = "[\<lparr>item_id = ''i1'', item_categoryId = ''c1'', item_imageId = Some ''img1'',
                item_position = 0\<rparr>]"
  let ?gone = "with_item_image\<lparr>categories := []\<rparr>"
  have none: "category_findUnique with_item_image ''c1'' ''bob'' = None"
    by (simp add: category_findUnique_def with_item_image_def id_userId_def)
  have f: "category_findUnique with_item_image ''c1'' ''alice'' = Some ?c"
    by (simp add: category_findUnique_def with_item_image_def id_userId_def)
  have f': "category_findUnique with_item_image ''c1'' ''alice'' \<noteq> None"
    using f by simp
  have p: "[''img1''] = imagePaths_of (items_of with_item_image ?c)"
    by (simp add: items_of_def with_item_image_def)
  have raced: "category_findUnique ?gone ''c1'' ''alice'' = None"
    by (simp add: category_findUnique_def)
  have p1: "[''img1''] = imagePaths_of ?its" by simp
  have old: "fst (delete_old_image (env_down ''x'') (cat_imageUrl ?c) ''Failed to delete category image:'')
             = [DeleteFile ''user/alice/category/old'']"
    by (simp add: delete_old_image_def try_deleteFile_def)
  from delete_one_transaction[where s=with_item_image and i="''c1''" and uid="''bob''"
         and env="env_ok ''x''"] none
  have 1: "delete (env_ok ''x'') ''bob'' ''c1'' with_item_image = thrown NotFound with_item_image [] []"
    by blast
  from delete_one_transaction
         [where s=with_item_image and i="''c1''" and uid="''alice''" and env="env_down ''x''"
            and c="?c" and paths="[''img1'']" and env'="env_ok ''x''"
            and ?s1.0="?gone" and ?paths1.0="[''img1'']" and its="?its" and ?c1.0="?c"]
       f p raced p1
  have 2: "committed (delete (env_down ''x'') ''alice'' ''c1'' with_item_image)
            = [[MenuItem_deleteMany ''c1'', Category_delete ''c1'' ''alice''] @
               (if [''img1''] \<noteq> [] then [Image_deleteMany [''img1'']] else [])]"
    and 3: "db (delete (env_down ''x'') ''alice'' ''c1'' with_item_image)
            = deleted_from with_item_image ''c1'' ''alice'' [''img1'']"
    and 4: "calls (delete (env_down ''x'') ''alice'' ''c1'' with_item_image)
            = fst (delete_old_image (env_down ''x'') (cat_imageUrl ?c) ''Failed to delete category image:'') @
              (if [''img1''] \<noteq> [] then [BulkDeleteFiles [''img1'']] else [])"
    and 5: "db (delete (env_ok ''x'') ''alice'' ''c1'' with_item_image)
            = db (delete (env_down ''x'') ''alice'' ''c1'' with_item_image)"
    and 6: "result (delete_writes (env_down ''x'') ''alice'' ''c1'' (?c, ?its) ?gone) = Inl NotFound"
    and 7: "db (delete_writes (env_down ''x'') ''alice'' ''c1'' (?c, ?its) ?gone) = ?gone"
    and 8: "calls (delete_writes (env_down ''x'') ''alice'' ''c1'' (?c, ?its) ?gone)
            = fst (delete_old_image (env_down ''x'') (cat_imageUrl ?c) ''Failed to delete category image:'') @
              (if [''img1''] \<noteq> [] then [BulkDeleteFiles [''img1'']] else [])"
    by blast+
  from delete_one_transaction
         [where i="''c1''" and uid="''alice''" and env="env_down ''x''"
            and ?s1.0=with_item_image and ?paths1.0="[''img1'']" and its="?its" and ?c1.0="?c"]
       f' p1
  have 9: "db (delete_writes (env_down ''x'') ''alice'' ''c1'' (?c, ?its) with_item_image)
           = deleted_from with_item_image ''c1'' ''alice'' [''img1'']"
    by blast
  from 1 2 3 4 5 6 7 8 9 show ?thesis unfolding old by simp
qed

lemma deleted_row_gone:
  "category_findUnique (deleted_from s i uid paths) i uid = None"
  by (simp add: deleted_from_def category_findUnique_def find_None_iff)

lemma deleted_items_gone:
  "\<forall>it\<in>set (menuItems (deleted_from s i uid paths)). item_categoryId it \<noteq> i"
  by (simp add: deleted_from_def)

lemma deleted_id_gone_for_caller:
  "i \<notin> cat_id ` {c \<in> set (categories (deleted_from s i uid paths)). cat_menuId c = m \<and> cat_userId c = uid}"
  by (auto simp: deleted_from_def id_userId_def)

lemma deleted_id_gone:
  assumes "distinct (map cat_id (categories s))" "category_findUnique s i uid = Some c"
  shows "i \<notin> cat_id ` set (categories (deleted_from s i uid paths))"
proof
  assume "i \<in> cat_id ` set (categories (deleted_from s i uid paths))"
  then obtain c' where c': "c' \<in> set (categories s)" "cat_id c' = i" "\<not> id_userId i uid c'"
    by (auto simp: deleted_from_def)
  from findUnique_Some[OF assms(2)] have c: "c \<in> set (categories s)" "cat_id c = i" "cat_userId c = uid"
    by simp_all
  from assms(1) have "inj_on cat_id (set (categories s))" by (simp add: distinct_map)
  with c c' have "c' = c" by (auto dest: inj_onD)
  with c c'(3) show False by (simp add: id_userId_def)
qed

text \<open>
  C4. When \<open>delete\<close> is called on a category of the caller that has an image and the
  image store's \<open>deleteFile\<close> throws on it, the error is caught and only logged: the call
  returns the category with its items, the Category row and all MenuItem rows of the
  category are removed, and a later \<open>getAll\<close> by the caller, for any menu, does not list
  the deleted id; where ids are unique in the table, no caller's \<open>getAll\<close> lists it.
\<close>

theorem delete_survives_image_failure:
  "category_findUnique s i uid = Some c \<and> cat_imageUrl c = Some url \<and> url \<noteq> [] \<and>
   deleteFile_throws env url \<longrightarrow>
     result (delete env uid i s) = Inr (c, items_of s c) \<and>
     logged (delete env uid i s) = [''Failed to delete category image:''] \<and>
     hd (calls (delete env uid i s)) = DeleteFile url \<and>
     category_findUnique (db (delete env uid i s)) i uid = None \<and>
     (\<forall>it\<in>set (menuItems (db (delete env uid i s))). item_categoryId it \<noteq> i) \<and>
     (\<forall>m. \<exists>rows. getAll uid m (db (delete env uid i s))
                     = returned rows (db (delete env uid i s)) [] [] \<and>
                   i \<notin> set (listed_ids rows)) \<and>
     (distinct (map cat_id (categories s)) \<longrightarrow>
        (\<forall>u m. \<exists>rows. getAll u m (db (delete env uid i s))
                          = returned rows (db (delete env uid i s)) [] [] \<and>
                        i \<notin> set (listed_ids rows)))"
proof (intro impI, elim conjE)
  assume f: "category_findUnique s i uid = Some c" and url: "cat_imageUrl c = Some url" "url \<noteq> []"
    and throws: "deleteFile_throws env url"
  let ?paths = "imagePaths_of (items_of s c)"
  let ?s' = "deleted_from s i uid ?paths"
  have d: "db (delete env uid i s) = ?s'" by (simp add: delete_found[OF f] returned_def)
  have 1: "result (delete env uid i s) = Inr (c, items_of s c)"
    by (simp add: delete_found[OF f] returned_def)
  have 2: "logged (delete env uid i s) = [''Failed to delete category image:'']"
    using url throws
    by (simp add: delete_found[OF f] returned_def delete_old_image_def try_deleteFile_def)
  have 3: "hd (calls (delete env uid i s)) = DeleteFile url"
    using url by (simp add: delete_found[OF f] returned_def delete_old_image_def try_deleteFile_def)
  have 6: "\<exists>rows. getAll uid m ?s' = returned rows ?s' [] [] \<and> i \<notin> set (listed_ids rows)" for m
    using getAll_listed[of uid m ?s'] deleted_id_gone_for_caller[of i s uid ?paths m] by auto
  have 7: "\<exists>rows. getAll u m ?s' = returned rows ?s' [] [] \<and> i \<notin> set (listed_ids rows)"
    if "distinct (map cat_id (categories s))" for u m
    using getAll_listed[of u m ?s'] deleted_id_gone[OF that f, of ?paths] by auto
  show "result (delete env uid i s) = Inr (c, items_of s c) \<and>
     logged (delete env uid i s) = [''Failed to delete category image:''] \<and>
     hd (calls (delete env uid i s)) = DeleteFile url \<and>
     category_findUnique (db (delete env uid i s)) i uid = None \<and>
     (\<forall>it\<in>set (menuItems (db (delete env uid i s))). item_categoryId it \<noteq> i) \<and>
     (\<forall>m. \<exists>rows. getAll uid m (db (delete env uid i s))
                     = returned rows (db (delete env uid i s)) [] [] \<and>
                   i \<notin> set (listed_ids rows)) \<and>
     (distinct (map cat_id (categories s)) \<longrightarrow>
        (\<forall>u m. \<exists>rows. getAll u m (db (delete env uid i s))
                          = returned rows (db (delete env uid i s)) [] [] \<and>
                        i \<notin> set (listed_ids rows)))"
    unfolding d using 1 2 3 6 7 deleted_row_gone[of s i uid ?paths] deleted_items_gone[of s i uid ?paths]
    by (intro conjI impI allI) (simp_all add: d)
qed

theorem delete_survives_image_failure_witness:
  "deleteFile_throws (env_down ''x'') ''user/alice/category/old'' \<and>
   result (delete (env_down ''x'') ''alice'' ''c1'' with_item_image)
     = Inr (\<lparr>cat_id = ''c1'', cat_menuId = ''m1'', cat_userId = ''alice'', cat_name = ''Starters'',
             cat_position = 0, cat_imageUrl = Some ''user/alice/category/old''\<rparr>,
            [\<lparr>item_id = ''i1'', item_categoryId = ''c1'', item_imageId = Some ''img1'',
              item_position = 0\<rparr>,
             \<lparr>item_id = ''i2'', item_categoryId = ''c1'', item_imageId = None,
              item_position = 1\<rparr>]) \<and>
   logged (delete (env_down ''x'') ''alice'' ''c1'' with_item_image)
     = [''Failed to delete category image:''] \<and>
   category_findUnique (db (delete (env_down ''x'') ''alice'' ''c1'' with_item_image)) ''c1'' ''alice''
     = None \<and>
   map item_id (menuItems (db (delete (env_down ''x'') ''alice'' ''c1'' with_item_image))) = [''i3''] \<and>
   (\<forall>u m. \<exists>rows. getAll u m (db (delete (env_down ''x'') ''alice'' ''c1'' with_item_image))
                     = returned rows (db (delete (env_down ''x'') ''alice'' ''c1'' with_item_image)) [] [] \<and>
                   ''c1'' \<notin> set (listed_ids rows))"
proof -
  let ?c = "\<lparr>cat_id = ''c1'', cat_menuId = ''m1'', cat_userId = ''alice'', cat_name = ''Starters'',
             cat_position = 0, cat_imageUrl = Some ''user/alice/category/old''\<rparr>"
  let ?d = "delete (env_down ''x'') ''alice'' ''c1'' with_item_image"
  have f: "category_findUnique with_item_image ''c1'' ''alice'' = Some ?c"
    by (simp add: category_findUnique_def with_item_image_def id_userId_def)
  have u: "cat_imageUrl ?c = Some ''user/alice/category/old''" "''user/alice/category/old'' \<noteq> []"
    by simp_all
  have th: "deleteFile_throws (env_down ''x'') ''user/alice/category/old''"
    by (simp add: env_down_def)
  have dist: "distinct (map cat_id (categories with_item_image))"
    by (simp add: with_item_image_def)
  have items: "items_of with_item_image ?c =
            [\<lparr>item_id = ''i1'', item_categoryId = ''c1'', item_imageId = Some ''img1'',
              item_position = 0\<rparr>,
             \<lparr>item_id = ''i2'', item_categoryId = ''c1'', item_imageId = None,
              item_position = 1\<rparr>]"
    by (simp add: items_of_def with_item_image_def)
  from delete_survives_image_failure
         [of with_item_image "''c1''" "''alice''" ?c "''user/alice/category/old''" "env_down ''x''"]
       f u th dist
  have 1: "result ?d = Inr (?c, items_of with_item_image ?c)"
    and 2: "logged ?d = [''Failed to delete category image:'']"
    and 3: "category_findUnique (db ?d) ''c1'' ''alice'' = None"
    and 4: "\<forall>u m. \<exists>rows. getAll u m (db ?d) = returned rows (db ?d) [] [] \<and>
                          ''c1'' \<notin> set (listed_ids rows)"
    by blast+
  have 5: "map item_id (menuItems (db ?d)) = [''i3'']"
    unfolding delete_found[OF f]
    by (simp add: returned_def deleted_from_def with_item_image_def)
  from th 1 2 3 4 5 show ?thesis unfolding items by simp
qed

section \<open>Uploads\<close>

lemma create_upload_fails:
  assumes "ci_imageBase64 input = Some b" "b \<noteq> []"
    and "uploadImage_filePath env b (category_folder uid) = None"
  shows "create env uid input s =
           thrown ExternalServiceError s
             [UploadImage b (category_folder uid), EncodeImageToBlurhash b, GetColor b] []"
  using assms by (simp add: create_def Let_def)

lemma update_upload_fails:
  assumes "ui_imageBase64 input = Some b" "b \<noteq> []"
    and "uploadImage_filePath env b (category_folder uid) = None"
  shows "(\<exists>e. result (update env uid input s) = Inl e) \<and> db (update env uid input s) = s \<and>
         (category_findUnique s (ui_id input) uid \<noteq> None \<longrightarrow>
            result (update env uid input s) = Inl ExternalServiceError \<and>
            last (calls (update env uid input s)) = UploadImage b (category_folder uid))"
  using assms
  by (auto simp: update_def Let_def thrown_def split: option.splits prod.splits)

text \<open>
  C5. When \<open>create\<close> or \<open>update\<close> is called with an image payload and the upload to the
  image store throws, the error is not caught: the call fails and the relational store
  is the one before the call, with no Category row created or modified. For \<open>create\<close>
  the error is the image store's; for \<open>update\<close> it is the image store's whenever the
  category is found, so that the upload is attempted at all.
\<close>

theorem upload_failure_aborts:
  "(ci_imageBase64 cinput = Some b \<and> b \<noteq> [] \<and>
    uploadImage_filePath env b (category_folder uid) = None \<longrightarrow>
      result (create env uid cinput s) = Inl ExternalServiceError \<and>
      db (create env uid cinput s) = s) \<and>
   (ui_imageBase64 uinput = Some b \<and> b \<noteq> [] \<and>
    uploadImage_filePath env b (category_folder uid) = None \<longrightarrow>
      (\<exists>e. result (update env uid uinput s) = Inl e) \<and>
      db (update env uid uinput s) = s \<and>
      (category_findUnique s (ui_id uinput) uid \<noteq> None \<longrightarrow>
         result (update env uid uinput s) = Inl ExternalServiceError \<and>
         last (calls (update env uid uinput s)) = UploadImage b (category_folder uid)))"
  using create_upload_fails[of cinput b env uid s] update_upload_fails[of uinput b env uid s]
  by (simp add: thrown_def)

theorem upload_failure_aborts_witness:
  "result (create (env_down ''c9'') ''alice''
             \<lparr>ci_name = ''Soups'', ci_imageBase64 = Some ''aGk='', ci_menuId = ''m1''\<rparr> with_item_image)
     = Inl ExternalServiceError \<and>
   db (create (env_down ''c9'') ''alice''
         \<lparr>ci_name = ''Soups'', ci_imageBase64 = Some ''aGk='', ci_menuId = ''m1''\<rparr> with_item_image)
     = with_item_image \<and>
   result (update (env_down ''c9'') ''alice''
             \<lparr>ui_name = ''Soups'', ui_imageBase64 = Some ''aGk='', ui_id = ''c1''\<rparr> with_item_image)
     = Inl ExternalServiceError \<and>
   db (update (env_down ''c9'') ''alice''
         \<lparr>ui_name = ''Soups'', ui_imageBase64 = Some ''aGk='', ui_id = ''c1''\<rparr> with_item_image)
     = with_item_image"
proof -
  let ?ci = "\<lparr>ci_name = ''Soups'', ci_imageBase64 = Some ''aGk='', ci_menuId = ''m1''\<rparr>"
  let ?ui = "\<lparr>ui_name = ''Soups'', ui_imageBase64 = Some ''aGk='', ui_id = ''c1''\<rparr>"
  have h1: "ci_imageBase64 ?ci = Some ''aGk='' \<and> ''aGk='' \<noteq> [] \<and>
            uploadImage_filePath (env_down ''c9'') ''aGk='' (category_folder ''alice'') = None"
    by (simp add: env_down_def)
  have h2: "ui_imageBase64 ?ui = Some ''aGk='' \<and> ''aGk='' \<noteq> [] \<and>
            uploadImage_filePath (env_down ''c9'') ''aGk='' (category_folder ''alice'') = None"
    by (simp add: env_down_def)
  have h3: "category_findUnique with_item_image (ui_id ?ui) ''alice'' \<noteq> None"
    by (simp add: category_findUnique_def with_item_image_def id_userId_def)
  from upload_failure_aborts[of ?ci "''aGk=''" "env_down ''c9''" "''alice''" with_item_image ?ui]
       h1 h2 h3
  show ?thesis by blast
qed

section \<open>Updating a category\<close>

lemma find_map_update:
  "(\<And>x. P x \<Longrightarrow> P (h x)) \<Longrightarrow>
   find P (map (\<lambda>x. if P x then h x else x) xs) = map_option h (find P xs)"
  by (induction xs) auto

lemma category_update_found:
  assumes "category_findUnique s i u = Some c"
  shows "category_update s i u d =
           (Inr (apply_updateData d c),
            s\<lparr>categories := map (\<lambda>c. if id_userId i u c then apply_updateData d c else c)
                               (categories s)\<rparr>)"
    and "category_findUnique (snd (category_update s i u d)) i u = Some (apply_updateData d c)"
proof -
  show 1: "category_update s i u d =
           (Inr (apply_updateData d c),
            s\<lparr>categories := map (\<lambda>c. if id_userId i u c then apply_updateData d c else c)
                               (categories s)\<rparr>)"
    using assms by (simp add: category_update_def)
  have "find (id_userId i u) (map (\<lambda>c. if id_userId i u c then apply_updateData d c else c) (categories s))
        = map_option (apply_updateData d) (find (id_userId i u) (categories s))"
    by (rule find_map_update) (simp add: id_userId_def apply_updateData_def)
  then show "category_findUnique (snd (category_update s i u d)) i u = Some (apply_updateData d c)"
    using assms unfolding 1 by (simp add: category_findUnique_def)
qed

lemma update_replaces_image:
  assumes f: "category_findUnique s (ui_id input) uid = Some c"
    and url: "cat_imageUrl c = Some url" "url \<noteq> []"
    and b: "ui_imageBase64 input = Some b" "b \<noteq> []"
    and p: "uploadImage_filePath env b (category_folder uid) = Some p"
  shows "calls (update env uid input s) = [DeleteFile url, UploadImage b (category_folder uid)]"
    and "result (update env uid input s) = Inr (c\<lparr>cat_name := ui_name input, cat_imageUrl := Some p\<rparr>)"
    and "category_findUnique (db (update env uid input s)) (ui_id input) uid
           = Some (c\<lparr>cat_name := ui_name input, cat_imageUrl := Some p\<rparr>)"
    and "logged (update env uid input s)
           = (if deleteFile_throws env url then [''Failed to delete old category image:''] else [])"
proof -
  let ?d = "\<lparr>ud_name = ui_name input, ud_imageUrl = Some p\<rparr>"
  have a: "apply_updateData ?d c = c\<lparr>cat_name := ui_name input, cat_imageUrl := Some p\<rparr>"
    by (simp add: apply_updateData_def)
  have u: "update env uid input s =
             \<lparr>result = fst (category_update s (ui_id input) uid ?d),
              db = snd (category_update s (ui_id input) uid ?d),
              calls = [DeleteFile url, UploadImage b (category_folder uid)],
              logged = (if deleteFile_throws env url
                        then [''Failed to delete old category image:''] else []),
              committed = []\<rparr>"
    using f url b p
    by (simp add: update_def Let_def delete_old_image_def try_deleteFile_def split: prod.splits)
  show "calls (update env uid input s) = [DeleteFile url, UploadImage b (category_folder uid)]"
    by (simp add: u)
  show "result (update env uid input s) = Inr (c\<lparr>cat_name := ui_name input, cat_imageUrl := Some p\<rparr>)"
    by (simp add: u category_update_found(1)[OF f] a)
  show "category_findUnique (db (update env uid input s)) (ui_id input) uid
           = Some (c\<lparr>cat_name := ui_name input, cat_imageUrl := Some p\<rparr>)"
    using category_update_found(2)[OF f, of ?d] by (simp add: u a)
  show "logged (update env uid input s)
           = (if deleteFile_throws env url then [''Failed to delete old category image:''] else [])"
    by (simp add: u)
qed

text \<open>
  C7. When \<open>update\<close> is called with a new image on a category of the caller that has an
  image, \<open>deleteFile\<close> is invoked on the prior \<open>imageUrl\<close> and then the replacement is
  uploaded, in this order and with no other image-store call. Whether or not the deletion
  throws (a throw is caught and only logged), the update completes once the upload has
  succeeded: the returned and the stored row carry the new name and the uploaded path as
  \<open>imageUrl\<close>.
\<close>

theorem update_replaces_prior_image:
  "category_findUnique s (ui_id input) uid = Some c \<and> cat_imageUrl c = Some url \<and> url \<noteq> [] \<and>
   ui_imageBase64 input = Some b \<and> b \<noteq> [] \<and>
   uploadImage_filePath env b (category_folder uid) = Some p \<longrightarrow>
     calls (update env uid input s) = [DeleteFile url, UploadImage b (category_folder uid)] \<and>
     result (update env uid input s) = Inr (c\<lparr>cat_name := ui_name input, cat_imageUrl := Some p\<rparr>) \<and>
     category_findUnique (db (update env uid input s)) (ui_id input) uid
       = Some (c\<lparr>cat_name := ui_name input, cat_imageUrl := Some p\<rparr>) \<and>
     logged (update env uid input s)
       = (if deleteFile_throws env url then [''Failed to delete old category image:''] else [])"
  using update_replaces_image[of s input uid c url b env p] by blast

theorem update_replaces_prior_image_witness:
  "deleteFile_throws (env_ok ''x''\<lparr>deleteFile_throws := \<lambda>url. True\<rparr>) ''user/alice/category/old'' \<and>
   calls (update (env_ok ''x''\<lparr>deleteFile_throws := \<lambda>url. True\<rparr>) ''alice''
            \<lparr>ui_name = ''Soups'', ui_imageBase64 = Some ''aGk='', ui_id = ''c1''\<rparr> with_item_image)
     = [DeleteFile ''user/alice/category/old'', UploadImage ''aGk='' ''user/alice/category''] \<and>
   result (update (env_ok ''x''\<lparr>deleteFile_throws := \<lambda>url. True\<rparr>) ''alice''
             \<lparr>ui_name = ''Soups'', ui_imageBase64 = Some ''aGk='', ui_id = ''c1''\<rparr> with_item_image)
     = Inr \<lparr>cat_id = ''c1'', cat_menuId = ''m1'', cat_userId = ''alice'', cat_name = ''Soups'',
            cat_position = 0, cat_imageUrl = Some ''user/alice/category/upload''\<rparr> \<and>
   logged (update (env_ok ''x''\<lparr>deleteFile_throws := \<lambda>url. True\<rparr>) ''alice''
             \<lparr>ui_name = ''Soups'', ui_imageBase64 = Some ''aGk='', ui_id = ''c1''\<rparr> with_item_image)
     = [''Failed to delete old category image:'']"
proof -
  let ?env = "env_ok ''x''\<lparr>deleteFile_throws := \<lambda>url. True\<rparr>"
  let ?ui = "\<lparr>ui_name = ''Soups'', ui_imageBase64 = Some ''aGk='', ui_id = ''c1''\<rparr>"
  let ?c = "\<lparr>cat_id = ''c1'', cat_menuId = ''m1'', cat_userId = ''alice'', cat_name = ''Starters'',
             cat_position = 0, cat_imageUrl = Some ''user/alice/category/old''\<rparr>"
  have h: "category_findUnique with_item_image (ui_id ?ui) ''alice'' = Some ?c \<and>
           cat_imageUrl ?c = Some ''user/alice/category/old'' \<and> ''user/alice/category/old'' \<noteq> [] \<and>
           ui_imageBase64 ?ui = Some ''aGk='' \<and> ''aGk='' \<noteq> [] \<and>
           uploadImage_filePath ?env ''aGk='' (category_folder ''alice'') = Some ''user/alice/category/upload''"
    by (simp add: category_findUnique_def with_item_image_def id_userId_def env_ok_def
          category_folder_def)
  have th: "deleteFile_throws ?env ''user/alice/category/old''" by simp
  from update_replaces_prior_image
         [of with_item_image ?ui "''alice''" ?c "''user/alice/category/old''" "''aGk=''" ?env
             "''user/alice/category/upload''"] h
  have "calls (update ?env ''alice'' ?ui with_item_image)
          = [DeleteFile ''user/alice/category/old'', UploadImage ''aGk='' (category_folder ''alice'')]"
    and "result (update ?env ''alice'' ?ui with_item_image)
          = Inr (?c\<lparr>cat_name := ui_name ?ui, cat_imageUrl := Some ''user/alice/category/upload''\<rparr>)"
    and "logged (update ?env ''alice'' ?ui with_item_image)
          = (if deleteFile_throws ?env ''user/alice/category/old''
             then [''Failed to delete old category image:''] else [])"
    by blast+
  with th show ?thesis by (simp add: category_folder_def)
qed

section \<open>Frames\<close>

lemma create_without_image:
  assumes "\<not> truthy (ci_imageBase64 input)"
  shows "calls (create env uid input s) = []"
    and "result (create env uid input s) = Inr (c, items) \<Longrightarrow>
           cat_imageUrl c = None \<and> db (create env uid input s) = s\<lparr>categories := categories s @ [c]\<rparr>"
    and "create (env\<lparr>uploadImage_filePath := up, encodeImageToBlurhash_value := bh,
                     getColor_value := gc\<rparr>) uid input s = create env uid input s"
  using assms
  by (cases "ci_imageBase64 input";
      auto simp: create_def Let_def category_create_def include_items_def split: if_splits)+

text \<open>
  C8. A \<open>create\<close> call whose input has no \<open>imageBase64\<close> (absent, or the empty string,
  which the guard treats alike) issues no image-store call, neither upload nor hash nor
  colour extraction, and its outcome is the same whatever these functions would do; the
  category it creates has no \<open>imageUrl\<close>.
\<close>

theorem create_without_image_untouched:
  "\<not> truthy (ci_imageBase64 input) \<longrightarrow>
     calls (create env uid input s) = [] \<and>
     create (env\<lparr>uploadImage_filePath := up, encodeImageToBlurhash_value := bh,
                 getColor_value := gc\<rparr>) uid input s = create env uid input s \<and>
     (\<forall>c items. result (create env uid input s) = Inr (c, items) \<longrightarrow>
        cat_imageUrl c = None \<and>
        db (create env uid input s) = s\<lparr>categories := categories s @ [c]\<rparr>)"
  using create_without_image(1)[of input env uid s]
    create_without_image(2)[of input env uid s] create_without_image(3)[where input=input and env=env and uid=uid and s=s
      and up=up and bh=bh and gc=gc]
  by blast

theorem create_without_image_untouched_witness:
  "\<not> truthy (ci_imageBase64 \<lparr>ci_name = ''Starters'', ci_imageBase64 = None, ci_menuId = ''m1''\<rparr>) \<and>
   calls (create (env_down ''c1'') ''bob''
            \<lparr>ci_name = ''Starters'', ci_imageBase64 = None, ci_menuId = ''m1''\<rparr> only_menu) = [] \<and>
   (\<exists>c items. result (create (env_down ''c1'') ''bob''
                        \<lparr>ci_name = ''Starters'', ci_imageBase64 = None, ci_menuId = ''m1''\<rparr> only_menu)
                 = Inr (c, items) \<and>
               cat_imageUrl c = None \<and>
               db (create (env_down ''c1'') ''bob''
                     \<lparr>ci_name = ''Starters'', ci_imageBase64 = None, ci_menuId = ''m1''\<rparr> only_menu)
                 = only_menu\<lparr>categories := categories only_menu @ [c]\<rparr>)"
proof -
  let ?ci = "\<lparr>ci_name = ''Starters'', ci_imageBase64 = None, ci_menuId = ''m1''\<rparr>"
  have h: "\<not> truthy (ci_imageBase64 ?ci)" by simp
  have r: "\<exists>c items. result (create (env_down ''c1'') ''bob'' ?ci only_menu) = Inr (c, items)"
    by (simp add: eval_defs)
  from create_without_image_untouched[of ?ci "env_down ''c1''" "''bob''" only_menu] h
  have 1: "calls (create (env_down ''c1'') ''bob'' ?ci only_menu) = []"
    and 2: "\<forall>c items. result (create (env_down ''c1'') ''bob'' ?ci only_menu) = Inr (c, items) \<longrightarrow>
              cat_imageUrl c = None \<and>
              db (create (env_down ''c1'') ''bob'' ?ci only_menu)
                = only_menu\<lparr>categories := categories only_menu @ [c]\<rparr>"
    by blast+
  from r 2 have 3: "\<exists>c items. result (create (env_down ''c1'') ''bob'' ?ci only_menu) = Inr (c, items) \<and>
               cat_imageUrl c = None \<and>
               db (create (env_down ''c1'') ''bob'' ?ci only_menu)
                 = only_menu\<lparr>categories := categories only_menu @ [c]\<rparr>"
    by blast
  from h 1 3 show ?thesis by (intro conjI)
qed

lemma update_Inr_cases:
  assumes "result (update env uid input s) = Inr c'"
  shows "\<exists>c d. category_findUnique s (ui_id input) uid = Some c \<and>
               ud_name d = ui_name input \<and>
               (\<not> truthy (ui_imageBase64 input) \<longrightarrow> ud_imageUrl d = None) \<and>
               c' = apply_updateData d c \<and>
               db (update env uid input s) =
                 s\<lparr>categories := map (\<lambda>c. if id_userId (ui_id input) uid c
                                           then apply_updateData d c else c) (categories s)\<rparr>"
proof (cases "category_findUnique s (ui_id input) uid")
  case None
  with assms show ?thesis by (simp add: update_def thrown_def)
next
  case (Some c)
  note cu = category_update_found(1)[OF Some]
  show ?thesis
  proof (cases "truthy (ui_imageBase64 input)")
    case False
    let ?d = "\<lparr>ud_name = ui_name input, ud_imageUrl = None\<rparr>"
    from False have "update env uid input s =
        \<lparr>result = fst (category_update s (ui_id input) uid ?d),
         db = snd (category_update s (ui_id input) uid ?d), calls = [], logged = [],
         committed = []\<rparr>"
      using Some by (cases "ui_imageBase64 input") (simp_all add: update_def Let_def split: prod.splits)
    with assms Some False show ?thesis
      by (intro exI[of _ c] exI[of _ ?d]) (simp add: cu)
  next
    case True
    then obtain b where b: "ui_imageBase64 input = Some b" "b \<noteq> []"
      by (cases "ui_imageBase64 input") auto
    show ?thesis
    proof (cases "uploadImage_filePath env b (category_folder uid)")
      case None
      with assms Some b show ?thesis
        by (simp add: update_def Let_def thrown_def split: prod.splits)
    next
      case (Some p)
      let ?d = "\<lparr>ud_name = ui_name input, ud_imageUrl = Some p\<rparr>"
      from Some b \<open>category_findUnique s (ui_id input) uid = Some c\<close>
      have "result (update env uid input s) = fst (category_update s (ui_id input) uid ?d) \<and>
            db (update env uid input s) = snd (category_update s (ui_id input) uid ?d)"
        by (simp add: update_def Let_def split: prod.splits)
      with assms True \<open>category_findUnique s (ui_id input) uid = Some c\<close> show ?thesis
        by (intro exI[of _ c] exI[of _ ?d]) (simp add: cu)
    qed
  qed
qed

lemma apply_updateData_keeps:
  "cat_id (if b then apply_updateData d c else c) = cat_id c"
  "cat_menuId (if b then apply_updateData d c else c) = cat_menuId c"
  "cat_userId (if b then apply_updateData d c else c) = cat_userId c"
  "cat_position (if b then apply_updateData d c else c) = cat_position c"
  "ud_imageUrl d = None \<Longrightarrow> cat_imageUrl (if b then apply_updateData d c else c) = cat_imageUrl c"
  by (simp_all add: apply_updateData_def)

lemma filter_others_map:
  "(\<And>x. P x \<Longrightarrow> P (h x)) \<Longrightarrow>
   filter (\<lambda>x. \<not> P x) (map (\<lambda>x. if P x then h x else x) xs) = filter (\<lambda>x. \<not> P x) xs"
  by (induction xs) auto

lemma update_frame_rows:
  fixes s i u d
  defines "s' \<equiv> s\<lparr>categories := map (\<lambda>c. if id_userId i u c then apply_updateData d c else c)
                                     (categories s)\<rparr>"
  shows "map cat_id (categories s') = map cat_id (categories s)"
    and "map cat_menuId (categories s') = map cat_menuId (categories s)"
    and "map cat_userId (categories s') = map cat_userId (categories s)"
    and "map cat_position (categories s') = map cat_position (categories s)"
    and "ud_imageUrl d = None \<Longrightarrow> map cat_imageUrl (categories s') = map cat_imageUrl (categories s)"
    and "filter (\<lambda>c. \<not> id_userId i u c) (categories s') = filter (\<lambda>c. \<not> id_userId i u c) (categories s)"
    and "menuItems s' = menuItems s" and "images s' = images s" and "menus s' = menus s"
proof -
  show "filter (\<lambda>c. \<not> id_userId i u c) (categories s') = filter (\<lambda>c. \<not> id_userId i u c) (categories s)"
    unfolding s'_def by (simp, rule filter_others_map) (simp add: id_userId_def apply_updateData_def)
qed (simp_all add: s'_def comp_def apply_updateData_keeps)

text \<open>
  C10. After a successful \<open>update\<close>, the updated category has the id, the menu, the owner
  and the position it had, and the new name; its \<open>imageUrl\<close> is as before unless an
  \<open>imageBase64\<close> payload was supplied. The same holds of the table: row by row the ids,
  menus, owners and positions are as before (and the image URLs, without a payload), the
  rows other than the caller's row with this id are untouched, and so are the MenuItem,
  Image and Menu tables.
\<close>

theorem update_changes_name_and_image_only:
  "result (update env uid input s) = Inr c' \<longrightarrow>
     (\<exists>c. category_findUnique s (ui_id input) uid = Some c \<and>
          cat_id c' = cat_id c \<and> cat_menuId c' = cat_menuId c \<and> cat_userId c' = cat_userId c \<and>
          cat_position c' = cat_position c \<and> cat_name c' = ui_name input \<and>
          (\<not> truthy (ui_imageBase64 input) \<longrightarrow> cat_imageUrl c' = cat_imageUrl c)) \<and>
     map cat_id (categories (db (update env uid input s))) = map cat_id (categories s) \<and>
     map cat_menuId (categories (db (update env uid input s))) = map cat_menuId (categories s) \<and>
     map cat_userId (categories (db (update env uid input s))) = map cat_userId (categories s) \<and>
     map cat_position (categories (db (update env uid input s))) = map cat_position (categories s) \<and>
     (\<not> truthy (ui_imageBase64 input) \<longrightarrow>
        map cat_imageUrl (categories (db (update env uid input s))) = map cat_imageUrl (categories s)) \<and>
     filter (\<lambda>c. \<not> id_userId (ui_id input) uid c) (categories (db (update env uid input s)))
       = filter (\<lambda>c. \<not> id_userId (ui_id input) uid c) (categories s) \<and>
     menuItems (db (update env uid input s)) = menuItems s \<and>
     images (db (update env uid input s)) = images s \<and>
     menus (db (update env uid input s)) = menus s"
proof
  assume "result (update env uid input s) = Inr c'"
  from update_Inr_cases[OF this] obtain c d where
    f: "category_findUnique s (ui_id input) uid = Some c"
    and n: "ud_name d = ui_name input"
    and img: "\<not> truthy (ui_imageBase64 input) \<longrightarrow> ud_imageUrl d = None"
    and c': "c' = apply_updateData d c"
    and s': "db (update env uid input s) =
               s\<lparr>categories := map (\<lambda>c. if id_userId (ui_id input) uid c
                                         then apply_updateData d c else c) (categories s)\<rparr>"
    by blast
  have row: "\<exists>c. category_findUnique s (ui_id input) uid = Some c \<and>
          cat_id c' = cat_id c \<and> cat_menuId c' = cat_menuId c \<and> cat_userId c' = cat_userId c \<and>
          cat_position c' = cat_position c \<and> cat_name c' = ui_name input \<and>
          (\<not> truthy (ui_imageBase64 input) \<longrightarrow> cat_imageUrl c' = cat_imageUrl c)"
    using f n img c' by (intro exI[of _ c]) (auto simp: apply_updateData_def)
  show "(\<exists>c. category_findUnique s (ui_id input) uid = Some c \<and>
          cat_id c' = cat_id c \<and> cat_menuId c' = cat_menuId c \<and> cat_userId c' = cat_userId c \<and>
          cat_position c' = cat_position c \<and> cat_name c' = ui_name input \<and>
          (\<not> truthy (ui_imageBase64 input) \<longrightarrow> cat_imageUrl c' = cat_imageUrl c)) \<and>
     map cat_id (categories (db (update env uid input s))) = map cat_id (categories s) \<and>
     map cat_menuId (categories (db (update env uid input s))) = map cat_menuId (categories s) \<and>
     map cat_userId (categories (db (update env uid input s))) = map cat_userId (categories s) \<and>
     map cat_position (categories (db (update env uid input s))) = map cat_position (categories s) \<and>
     (\<not> truthy (ui_imageBase64 input) \<longrightarrow>
        map cat_imageUrl (categories (db (update env uid input s))) = map cat_imageUrl (categories s)) \<and>
     filter (\<lambda>c. \<not> id_userId (ui_id input) uid c) (categories (db (update env uid input s)))
       = filter (\<lambda>c. \<not> id_userId (ui_id input) uid c) (categories s) \<and>
     menuItems (db (update env uid input s)) = menuItems s \<and>
     images (db (update env uid input s)) = images s \<and>
     menus (db (update env uid input s)) = menus s"
    unfolding s' using row img update_frame_rows[where s=s and i="ui_id input" and u=uid and d=d]
    by (intro conjI impI) simp_all
qed

theorem update_changes_name_and_image_only_witness:
  "result (update (env_down ''x'') ''alice''
             \<lparr>ui_name = ''Soups'', ui_imageBase64 = None, ui_id = ''c1''\<rparr> with_item_image)
     = Inr \<lparr>cat_id = ''c1'', cat_menuId = ''m1'', cat_userId = ''alice'', cat_name = ''Soups'',
            cat_position = 0, cat_imageUrl = Some ''user/alice/category/old''\<rparr> \<and>
   map cat_position (categories (db (update (env_down ''x'') ''alice''
       \<lparr>ui_name = ''Soups'', ui_imageBase64 = None, ui_id = ''c1''\<rparr> with_item_image)))
     = map cat_position (categories with_item_image) \<and>
   map cat_imageUrl (categories (db (update (env_down ''x'') ''alice''
       \<lparr>ui_name = ''Soups'', ui_imageBase64 = None, ui_id = ''c1''\<rparr> with_item_image)))
     = map cat_imageUrl (categories with_item_image) \<and>
   menuItems (db (update (env_down ''x'') ''alice''
       \<lparr>ui_name = ''Soups'', ui_imageBase64 = None, ui_id = ''c1''\<rparr> with_item_image))
     = menuItems with_item_image"
proof -
  let ?ui = "\<lparr>ui_name = ''Soups'', ui_imageBase64 = None, ui_id = ''c1''\<rparr>"
  let ?c' = "\<lparr>cat_id = ''c1'', cat_menuId = ''m1'', cat_userId = ''alice'', cat_name = ''Soups'',
              cat_position = 0, cat_imageUrl = Some ''user/alice/category/old''\<rparr>"
  have r: "result (update (env_down ''x'') ''alice'' ?ui with_item_image) = Inr ?c'"
    by (simp add: update_def category_update_def category_findUnique_def id_userId_def
          with_item_image_def apply_updateData_def Let_def)
  have h: "\<not> truthy (ui_imageBase64 ?ui)" by simp
  from update_changes_name_and_image_only[of "env_down ''x''" "''alice''" ?ui with_item_image ?c'] r h
  show ?thesis by blast
qed

end
